theory Spec2Isabelle
  imports Main
begin

section \<open>The stores\<close>

text \<open>
  The job routes of \<^verbatim>\<open>src/routes/jobs.ts\<close> work on a D1 (SQLite) database and an R2
  bucket. A table is the list of its rows in rowid order, the order in which the rows
  were inserted; a statement with no \<^verbatim>\<open>ORDER BY\<close> on a table with no index (none of
  the migrations creates one) scans the rows in that order. The columns
  \<^verbatim>\<open>id INTEGER PRIMARY KEY AUTOINCREMENT\<close> and \<^verbatim>\<open>created_at\<close> are read by no
  route and are left out. \<^verbatim>\<open>jobs.id\<close> is written \<open>jobs_id\<close>.
\<close>

type_synonym bytes = string

record jobs_row =
  jobs_id :: string
  user_email :: string
  security_text :: string
  anti_screenshot :: int
  anti_copy :: int
  view_limit :: int
  domain_restrict :: int
  expiration :: int
  status :: string
  total_files :: int
  uploaded_files :: int

text \<open>\<^verbatim>\<open>file_index INTEGER\<close> of migration 0003 is nullable: \<open>None\<close> is NULL.\<close>

record job_files_row =
  job_id :: string
  original_name :: string
  folder_name :: string
  storage_key :: string
  size_bytes :: int
  upload_status :: string
  file_index :: "nat option"

record job_recipients_row =
  recipient_job_id :: string
  email :: string
  source :: string

record store =
  jobs :: "jobs_row list"
  job_files :: "job_files_row list"
  job_recipients :: "job_recipients_row list"
  bucket :: "string \<rightharpoonup> bytes"

definition empty_store :: store where
  "empty_store = \<lparr>jobs = [], job_files = [], job_recipients = [], bucket = Map.empty\<rparr>"

section \<open>Requests, responses and errors\<close>

text \<open>
  A handler either returns a JSON body (\<open>Inr\<close>) or throws. \<open>HTTPException\<close> is the
  exception the handlers throw themselves, with its status and message; \<open>D1Error\<close> and
  \<open>R2Error\<close> are the exceptions of a failed database statement and of a failed
  \<^verbatim>\<open>BUCKET.put\<close>, which no handler catches.
\<close>

datatype error = HTTPException nat string | D1Error | R2Error

record SecurityOptions =
  securityText :: string
  antiScreenshot :: bool
  antiCopy :: bool
  viewLimit :: bool
  domainRestrict :: bool
  expirationOption :: bool

record Recipient =
  recipientEmail :: string
  recipientSource :: string

record DraftFileMetaItem =
  folderName :: string
  fileName :: string
  sizeBytes :: int

record CreateDraftRequest =
  security :: SecurityOptions
  recipients :: "Recipient list"
  fileMeta :: "DraftFileMetaItem list"

text \<open>A value of a multipart form field: a plain string or a file with its bytes.\<close>

datatype form_value = FormString string | FormFile bytes

type_synonym form_data = "(string \<times> form_value) list"

record UploadFileResponse =
  fileIndex :: nat
  uploadedFiles :: int
  totalFiles :: int

record JobStatusResponse =
  statusJobId :: string
  statusOfJob :: string
  statusTotalFiles :: int
  statusUploadedFiles :: int
  pendingIndices :: "nat option list"

section \<open>Database statements\<close>

text \<open>
  \<^verbatim>\<open>SELECT jf.storage_key, jf.upload_status FROM job_files jf
   INNER JOIN jobs j ON j.id = jf.job_id
   WHERE jf.job_id = ? AND jf.file_index = ? AND j.user_email = ? AND j.status = 'draft'\<close>
  with \<^verbatim>\<open>.first()\<close>: the first row of the join, or null.
\<close>

definition select_file_row :: "store \<Rightarrow> string \<Rightarrow> nat \<Rightarrow> string \<Rightarrow> job_files_row option" where
  "select_file_row s jobId fileIdx userEmail =
     find (\<lambda>jf. job_id jf = jobId \<and> file_index jf = Some fileIdx \<and>
                list_ex (\<lambda>j. jobs_id j = job_id jf \<and> user_email j = userEmail \<and>
                               status j = ''draft'') (jobs s))
          (job_files s)"

text \<open>
  \<^verbatim>\<open>UPDATE job_files SET upload_status = 'uploaded'
   WHERE job_id = ? AND file_index = ? AND upload_status = 'pending'\<close>:
  the rows it matches, the table after it, and \<^verbatim>\<open>meta.changes\<close>.
\<close>

definition is_pending_slot :: "string \<Rightarrow> nat \<Rightarrow> job_files_row \<Rightarrow> bool" where
  "is_pending_slot jobId fileIdx jf \<longleftrightarrow>
     job_id jf = jobId \<and> file_index jf = Some fileIdx \<and> upload_status jf = ''pending''"

definition update_file_uploaded :: "string \<Rightarrow> nat \<Rightarrow> store \<Rightarrow> store" where
  "update_file_uploaded jobId fileIdx s =
     s\<lparr>job_files := map (\<lambda>jf. if is_pending_slot jobId fileIdx jf
                                then jf\<lparr>upload_status := ''uploaded''\<rparr> else jf)
                          (job_files s)\<rparr>"

definition update_changes :: "string \<Rightarrow> nat \<Rightarrow> store \<Rightarrow> nat" where
  "update_changes jobId fileIdx s = length (filter (is_pending_slot jobId fileIdx) (job_files s))"

text \<open>\<^verbatim>\<open>UPDATE jobs SET uploaded_files = uploaded_files + 1 WHERE id = ?\<close>\<close>

definition increment_uploaded :: "string \<Rightarrow> store \<Rightarrow> store" where
  "increment_uploaded jobId s =
     s\<lparr>jobs := map (\<lambda>j. if jobs_id j = jobId
                          then j\<lparr>uploaded_files := uploaded_files j + 1\<rparr> else j)
                     (jobs s)\<rparr>"

text \<open>\<^verbatim>\<open>SELECT ... FROM jobs WHERE id = ?\<close> with \<^verbatim>\<open>.first()\<close>\<close>

definition select_job :: "store \<Rightarrow> string \<Rightarrow> jobs_row option" where
  "select_job s jobId = find (\<lambda>j. jobs_id j = jobId) (jobs s)"

text \<open>\<^verbatim>\<open>SELECT ... FROM jobs WHERE id = ? AND user_email = ?\<close> with \<^verbatim>\<open>.first()\<close>\<close>

definition select_owned_job :: "store \<Rightarrow> string \<Rightarrow> string \<Rightarrow> jobs_row option" where
  "select_owned_job s jobId userEmail =
     find (\<lambda>j. jobs_id j = jobId \<and> user_email j = userEmail) (jobs s)"

text \<open>\<^verbatim>\<open>UPDATE jobs SET status = ? WHERE id = ?\<close>\<close>

definition update_status :: "string \<Rightarrow> string \<Rightarrow> store \<Rightarrow> store" where
  "update_status jobId st s =
     s\<lparr>jobs := map (\<lambda>j. if jobs_id j = jobId then j\<lparr>status := st\<rparr> else j) (jobs s)\<rparr>"

text \<open>
  \<^verbatim>\<open>SELECT file_index FROM job_files WHERE job_id = ? AND upload_status = 'pending'\<close>
  with \<^verbatim>\<open>.all()\<close>.
\<close>

definition select_pending :: "store \<Rightarrow> string \<Rightarrow> job_files_row list" where
  "select_pending s jobId =
     filter (\<lambda>jf. job_id jf = jobId \<and> upload_status jf = ''pending'') (job_files s)"

section \<open>PUT /jobs/{jobId}/files/{fileIndex}\<close>

text \<open>
  The handler's inputs: the subject of the verified token, the validated path
  parameters (\<open>fileIndex\<close> is a non-negative integer), the multipart form, and whether
  \<^verbatim>\<open>BUCKET.put\<close> succeeds in this call. \<^verbatim>\<open>formData.get('file')\<close> is the first
  value of the field, \<open>map_of\<close> on the list of fields. The statements run in the
  handler's order: the guarded lookup, the form, the put, the conditional update, the
  increment when \<^verbatim>\<open>meta.changes > 0\<close>, the re-read.

  The two \<^verbatim>\<open>UPDATE\<close> statements are awaited one after the other, in no batch and
  under no \<^verbatim>\<open>catch\<close>; \<open>uploadFault\<close> says which of them, if any, the database fails
  in this call. A failed statement throws, and what the earlier statements wrote stays:
  after a failed increment the row is \<^verbatim>\<open>'uploaded'\<close> and the counter is as it was.
  The increment can fail only when it runs, that is when \<^verbatim>\<open>meta.changes > 0\<close>. A
  failing \<^verbatim>\<open>SELECT\<close> writes nothing and is left out, and so is a failing statement of
  the three handlers below, each of which writes at most once.
\<close>

datatype upload_fault = NoUploadFault | StatusUpdateFails | IncrementFails

record upload_call =
  callUser :: string
  callJobId :: string
  callFileIndex :: nat
  callForm :: form_data
  putSucceeds :: bool
  uploadFault :: upload_fault

definition uploadFile :: "upload_call \<Rightarrow> store \<Rightarrow> (error + UploadFileResponse) \<times> store" where
  "uploadFile c s =
     (case select_file_row s (callJobId c) (callFileIndex c) (callUser c) of
        None \<Rightarrow> (Inl (HTTPException 404 ''File not found or job is not in draft state.''), s)
      | Some fileRow \<Rightarrow>
          (case map_of (callForm c) ''file'' of
             None \<Rightarrow> (Inl (HTTPException 400 ''Missing \"file\" field.''), s)
           | Some (FormString v) \<Rightarrow> (Inl (HTTPException 400 ''Missing \"file\" field.''), s)
           | Some (FormFile file) \<Rightarrow>
               if \<not> putSucceeds c then (Inl R2Error, s)
               else
                 let s1 = s\<lparr>bucket := (bucket s)(storage_key fileRow \<mapsto> file)\<rparr> in
                 if uploadFault c = StatusUpdateFails then (Inl D1Error, s1)
                 else
                   let changes = update_changes (callJobId c) (callFileIndex c) s1;
                       s2 = update_file_uploaded (callJobId c) (callFileIndex c) s1
                   in
                   if changes > 0 \<and> uploadFault c = IncrementFails then (Inl D1Error, s2)
                   else
                     let s3 = (if changes > 0 then increment_uploaded (callJobId c) s2 else s2)
                     in (case select_job s3 (callJobId c) of
                           None \<Rightarrow> (Inl (HTTPException 500 ''Failed to retrieve job state.''), s3)
                         | Some jobRow \<Rightarrow>
                             (Inr \<lparr>fileIndex = callFileIndex c,
                                   uploadedFiles = uploaded_files jobRow,
                                   totalFiles = total_files jobRow\<rparr>, s3))))"

section \<open>POST /jobs/{jobId}/submit, GET /jobs/{jobId}/status, POST /jobs/{jobId}/complete\<close>

definition submitJob :: "string \<Rightarrow> string \<Rightarrow> store \<Rightarrow> (error + string) \<times> store" where
  "submitJob userEmail jobId s =
     (case select_owned_job s jobId userEmail of
        None \<Rightarrow> (Inl (HTTPException 404 ''Job not found.''), s)
      | Some jobRow \<Rightarrow>
          if status jobRow \<noteq> ''draft'' then (Inl (HTTPException 400 ''Already submitted.''), s)
          else if uploaded_files jobRow < total_files jobRow
          then (Inl (HTTPException 400 ''Not all files have been uploaded yet.''), s)
          else (Inr jobId, update_status jobId ''pending'' s))"

definition getJobStatus :: "string \<Rightarrow> string \<Rightarrow> store \<Rightarrow> (error + JobStatusResponse) \<times> store" where
  "getJobStatus userEmail jobId s =
     (case select_owned_job s jobId userEmail of
        None \<Rightarrow> (Inl (HTTPException 404 ''Job not found.''), s)
      | Some jobRow \<Rightarrow>
          (Inr \<lparr>statusJobId = jobId,
                statusOfJob = status jobRow,
                statusTotalFiles = total_files jobRow,
                statusUploadedFiles = uploaded_files jobRow,
                pendingIndices = map file_index (select_pending s jobId)\<rparr>, s))"

definition completeJob :: "string \<Rightarrow> string \<Rightarrow> store \<Rightarrow> (error + string) \<times> store" where
  "completeJob userEmail jobId s =
     (case select_owned_job s jobId userEmail of
        None \<Rightarrow> (Inl (HTTPException 404 ''Job not found.''), s)
      | Some jobRow \<Rightarrow>
          if status jobRow \<noteq> ''pending''
          then (Inl (HTTPException 400 ''Job is not in pending state.''), s)
          else (Inr jobId, update_status jobId ''completed'' s))"

section \<open>POST /jobs/draft\<close>

text \<open>
  The results of \<^verbatim>\<open>crypto.randomUUID()\<close> are inputs: \<open>newJobId\<close> for the job and
  \<open>fileUuid i\<close> for the storage key of the file at position \<open>i\<close>. The handler awaits
  two writes, the \<^verbatim>\<open>INSERT INTO jobs\<close> and then \<^verbatim>\<open>DB.batch\<close> of the
  \<^verbatim>\<open>job_files\<close> and \<^verbatim>\<open>job_recipients\<close> inserts; \<open>d1_fault\<close> says which of them, if
  any, the database fails, for whatever reason. A failed batch is rolled back as a
  whole. The insert into \<^verbatim>\<open>jobs\<close> also fails when the primary key is taken. The
  request body is the validated one; the handler itself checks nothing of it.
\<close>

datatype d1_fault = NoFault | JobInsertFails | BatchFails

record draft_call =
  draftUser :: string
  draftBody :: CreateDraftRequest
  newJobId :: string
  fileUuid :: "nat \<Rightarrow> string"
  draftFault :: d1_fault

definition bool_to_int :: "bool \<Rightarrow> int" where
  "bool_to_int b = (if b then 1 else 0)"

definition storageKeys :: "draft_call \<Rightarrow> string list" where
  "storageKeys c =
     map (\<lambda>(i, meta). ''jobs/'' @ newJobId c @ ''/'' @ fileUuid c i @ ''-'' @ fileName meta)
         (enumerate 0 (fileMeta (draftBody c)))"

definition jobInsert :: "draft_call \<Rightarrow> jobs_row" where
  "jobInsert c =
     \<lparr>jobs_id = newJobId c,
      user_email = draftUser c,
      security_text = securityText (security (draftBody c)),
      anti_screenshot = bool_to_int (antiScreenshot (security (draftBody c))),
      anti_copy = bool_to_int (antiCopy (security (draftBody c))),
      view_limit = bool_to_int (viewLimit (security (draftBody c))),
      domain_restrict = bool_to_int (domainRestrict (security (draftBody c))),
      expiration = bool_to_int (expirationOption (security (draftBody c))),
      status = ''draft'',
      total_files = int (length (fileMeta (draftBody c))),
      uploaded_files = 0\<rparr>"

definition fileInserts :: "draft_call \<Rightarrow> job_files_row list" where
  "fileInserts c =
     map (\<lambda>(i, meta).
            \<lparr>job_id = newJobId c,
             original_name = fileName meta,
             folder_name = folderName meta,
             storage_key = storageKeys c ! i,
             size_bytes = sizeBytes meta,
             upload_status = ''pending'',
             file_index = Some i\<rparr>)
         (enumerate 0 (fileMeta (draftBody c)))"

definition recipientInserts :: "draft_call \<Rightarrow> job_recipients_row list" where
  "recipientInserts c =
     map (\<lambda>r. \<lparr>recipient_job_id = newJobId c, email = recipientEmail r, source = recipientSource r\<rparr>)
         (recipients (draftBody c))"

definition createDraft :: "draft_call \<Rightarrow> store \<Rightarrow> (error + string) \<times> store" where
  "createDraft c s =
     (if draftFault c = JobInsertFails \<or> list_ex (\<lambda>j. jobs_id j = newJobId c) (jobs s)
      then (Inl D1Error, s)
      else
        let s1 = s\<lparr>jobs := jobs s @ [jobInsert c]\<rparr> in
        if draftFault c = BatchFails then (Inl D1Error, s1)
        else (Inr (newJobId c),
              s1\<lparr>job_files := job_files s1 @ fileInserts c,
                 job_recipients := job_recipients s1 @ recipientInserts c\<rparr>))"

section \<open>Sequences of requests\<close>

text \<open>
  A request is one call of a handler with everything the call depends on; \<open>run\<close>
  serves a list of requests one after the other and \<open>upload_all\<close> a list of uploads.
  \<open>batch_succeeds\<close> and \<open>increment_succeeds\<close> say of a request that it is not a
  draft whose batch fails, and not an upload whose increment fails.
\<close>

datatype request =
    CreateDraft draft_call
  | UploadFile upload_call
  | SubmitJob string string
  | GetJobStatus string string
  | CompleteJob string string

fun handle :: "request \<Rightarrow> store \<Rightarrow> store" where
  "handle (CreateDraft c) s = snd (createDraft c s)"
| "handle (UploadFile c) s = snd (uploadFile c s)"
| "handle (SubmitJob u J) s = snd (submitJob u J s)"
| "handle (GetJobStatus u J) s = snd (getJobStatus u J s)"
| "handle (CompleteJob u J) s = snd (completeJob u J s)"

fun run :: "request list \<Rightarrow> store \<Rightarrow> store" where
  "run [] s = s"
| "run (r # rs) s = run rs (handle r s)"

fun batch_succeeds :: "request \<Rightarrow> bool" where
  "batch_succeeds (CreateDraft c) = (draftFault c \<noteq> BatchFails)"
| "batch_succeeds _ = True"

fun increment_succeeds :: "request \<Rightarrow> bool" where
  "increment_succeeds (UploadFile c) = (uploadFault c \<noteq> IncrementFails)"
| "increment_succeeds _ = True"

fun upload_all :: "upload_call list \<Rightarrow> store \<Rightarrow> store" where
  "upload_all [] s = s"
| "upload_all (c # cs) s = upload_all cs (snd (uploadFile c s))"

section \<open>Invariants of the store\<close>

text \<open>
  \<open>files_of s jobId\<close> are the \<^verbatim>\<open>job_files\<close> rows of a job and \<open>uploaded_count\<close> the
  number of them whose status is \<^verbatim>\<open>'uploaded'\<close>. \<open>counters_consistent\<close> says of every
  row of \<^verbatim>\<open>jobs\<close> that its \<^verbatim>\<open>uploaded_files\<close> is the number of the
  \<^verbatim>\<open>job_files\<close> rows of that job whose \<^verbatim>\<open>upload_status\<close> is \<^verbatim>\<open>'uploaded'\<close>.
\<close>

definition files_of :: "store \<Rightarrow> string \<Rightarrow> job_files_row list" where
  "files_of s jobId = filter (\<lambda>jf. job_id jf = jobId) (job_files s)"

definition uploaded_count :: "store \<Rightarrow> string \<Rightarrow> nat" where
  "uploaded_count s jobId =
     length (filter (\<lambda>jf. upload_status jf = ''uploaded'') (files_of s jobId))"

definition counters_consistent :: "store \<Rightarrow> bool" where
  "counters_consistent s \<longleftrightarrow>
     list_all (\<lambda>j. uploaded_files j =
                 int (length (filter (\<lambda>jf. job_id jf = jobs_id j \<and> upload_status jf = ''uploaded'')
                                     (job_files s))))
              (jobs s)"

text \<open>
  \<open>foreign_keys_ok\<close> is \<^verbatim>\<open>job_id REFERENCES jobs(id)\<close>; \<open>slots_distinct\<close> says that no
  job has two rows with the same \<^verbatim>\<open>file_index\<close>; \<open>primary_key_ok\<close> is
  \<^verbatim>\<open>id TEXT PRIMARY KEY\<close>. \<open>upload_inv\<close> is what the upload counter needs; every
  handler keeps it, an upload whose increment fails apart. \<open>store_inv\<close> adds the shape
  \<open>job_shape\<close> a successful draft gives a job: the rows of the job carry the indices
  \<open>0, 1, ...\<close> in table order, \<^verbatim>\<open>total_files\<close> is their number and every status is
  \<^verbatim>\<open>'pending'\<close> or \<^verbatim>\<open>'uploaded'\<close>. Every handler keeps it, a draft whose batch fails
  and an upload whose increment fails apart.
\<close>

definition foreign_keys_ok :: "store \<Rightarrow> bool" where
  "foreign_keys_ok s \<longleftrightarrow>
     list_all (\<lambda>jf. list_ex (\<lambda>j. jobs_id j = job_id jf) (jobs s)) (job_files s)"

definition slots_distinct :: "store \<Rightarrow> bool" where
  "slots_distinct s \<longleftrightarrow>
     list_all (\<lambda>j. distinct (map file_index (files_of s (jobs_id j)))) (jobs s)"

definition upload_inv :: "store \<Rightarrow> bool" where
  "upload_inv s \<longleftrightarrow> foreign_keys_ok s \<and> slots_distinct s \<and> counters_consistent s"

definition primary_key_ok :: "store \<Rightarrow> bool" where
  "primary_key_ok s \<longleftrightarrow> distinct (map jobs_id (jobs s))"

definition job_shape :: "store \<Rightarrow> jobs_row \<Rightarrow> bool" where
  "job_shape s j \<longleftrightarrow>
     map file_index (files_of s (jobs_id j)) = map Some [0..<length (files_of s (jobs_id j))] \<and>
     total_files j = int (length (files_of s (jobs_id j))) \<and>
     list_all (\<lambda>jf. upload_status jf = ''pending'' \<or> upload_status jf = ''uploaded'')
       (files_of s (jobs_id j))"

definition store_inv :: "store \<Rightarrow> bool" where
  "store_inv s \<longleftrightarrow> upload_inv s \<and> primary_key_ok s \<and> list_all (job_shape s) (jobs s)"


definition rows_ok :: "job_files_row list \<Rightarrow> bool" where
  "rows_ok xs \<longleftrightarrow>
     map file_index xs = map Some [0..<length xs] \<and>
     list_all (\<lambda>jf. upload_status jf = ''pending'' \<or> upload_status jf = ''uploaded'') xs"

definition rows_inv :: "store \<Rightarrow> bool" where
  "rows_inv s \<longleftrightarrow>
     foreign_keys_ok s \<and> primary_key_ok s \<and>
     list_all (\<lambda>j. rows_ok (files_of s (jobs_id j))) (jobs s)"

text \<open>
  Names for parts of the handlers: the two updates of an upload after the put, one row
  after the conditional update, and the store after each of the two writes of a draft.
\<close>

definition upload_writes :: "string \<Rightarrow> nat \<Rightarrow> store \<Rightarrow> store" where
  "upload_writes J i s = (if update_changes J i s > 0
     then increment_uploaded J (update_file_uploaded J i s) else update_file_uploaded J i s)"

definition mark_uploaded :: "string \<Rightarrow> nat \<Rightarrow> job_files_row \<Rightarrow> job_files_row" where
  "mark_uploaded J i jf = (if is_pending_slot J i jf then jf\<lparr>upload_status := ''uploaded''\<rparr> else jf)"

definition draft_inserted :: "draft_call \<Rightarrow> store \<Rightarrow> store" where
  "draft_inserted c s = s\<lparr>jobs := jobs s @ [jobInsert c]\<rparr>"

definition draft_batched :: "draft_call \<Rightarrow> store \<Rightarrow> store" where
  "draft_batched c s = (draft_inserted c s)\<lparr>job_files := job_files s @ fileInserts c,
      job_recipients := job_recipients s @ recipientInserts c\<rparr>"

text \<open>
  A 400 response, and the set of the file indices of a job whose row is \<^verbatim>\<open>'pending'\<close>.
\<close>

definition is_validation_error :: "error + 'a \<Rightarrow> bool" where
  "is_validation_error r \<longleftrightarrow> (case r of Inl (HTTPException code msg) \<Rightarrow> code = 400 | _ \<Rightarrow> False)"

definition pending_index_set :: "store \<Rightarrow> string \<Rightarrow> nat set" where
  "pending_index_set s jobId =
     {i. \<exists>jf\<in>set (job_files s). job_id jf = jobId \<and> upload_status jf = ''pending'' \<and> file_index jf = Some i}"

text \<open>
  What "every row of the new job exists, or none" says of a store: the row of the job,
  its file rows and its recipient rows are all there, or none of them is.
\<close>

definition recipients_of :: "store \<Rightarrow> string \<Rightarrow> job_recipients_row list" where
  "recipients_of s jobId = filter (\<lambda>r. recipient_job_id r = jobId) (job_recipients s)"

definition draft_rows_atomic :: "draft_call \<Rightarrow> store \<Rightarrow> bool" where
  "draft_rows_atomic c s \<longleftrightarrow>
     (select_job s (newJobId c) = Some (jobInsert c) \<and>
      files_of s (newJobId c) = fileInserts c \<and>
      recipients_of s (newJobId c) = recipientInserts c) \<or>
     (select_job s (newJobId c) = None \<and>
      files_of s (newJobId c) = [] \<and>
      recipients_of s (newJobId c) = [])"

section \<open>An example job\<close>

text \<open>
  A draft of three files by \<^verbatim>\<open>alice@example.com\<close>, the store it leaves, uploads to it
  (index 1 twice, index 0, index 2 by another user, an index that is not registered,
  index 2), and the stores after the first upload, after all uploads and after submit.
  Also an upload of index 1 whose increment fails, and the store that the same draft
  leaves when its batch fails, with the status response for it.
\<close>

definition example_draft :: draft_call where
  "example_draft =
     \<lparr>draftUser = ''alice@example.com'',
      draftBody =
        \<lparr>security = \<lparr>securityText = ''SECURED'', antiScreenshot = True, antiCopy = False,
                      viewLimit = False, domainRestrict = False, expirationOption = True\<rparr>,
         recipients = [\<lparr>recipientEmail = ''bob@example.com'', recipientSource = ''direct''\<rparr>],
         fileMeta = [\<lparr>folderName = ''docs'', fileName = ''a.png'', sizeBytes = 10\<rparr>,
                     \<lparr>folderName = ''docs'', fileName = ''b.png'', sizeBytes = 20\<rparr>,
                     \<lparr>folderName = ''pics'', fileName = ''c.png'', sizeBytes = 30\<rparr>]\<rparr>,
      newJobId = ''job-1'',
      fileUuid = (\<lambda>i. if i = 0 then ''u0'' else if i = 1 then ''u1'' else ''u2''),
      draftFault = NoFault\<rparr>"

definition example_draft_batch_fails :: draft_call where
  "example_draft_batch_fails = example_draft\<lparr>draftFault := BatchFails\<rparr>"

definition example_store :: store where
  "example_store = snd (createDraft example_draft empty_store)"

definition example_upload :: "string \<Rightarrow> nat \<Rightarrow> upload_call" where
  "example_upload u i =
     \<lparr>callUser = u, callJobId = ''job-1'', callFileIndex = i,
      callForm = [(''file'', FormFile ''bytes'')], putSucceeds = True,
      uploadFault = NoUploadFault\<rparr>"

definition example_job :: "int \<Rightarrow> jobs_row" where
  "example_job n =
     \<lparr>jobs_id = ''job-1'', user_email = ''alice@example.com'', security_text = ''SECURED'',
      anti_screenshot = 1, anti_copy = 0, view_limit = 0, domain_restrict = 0, expiration = 1,
      status = ''draft'', total_files = 3, uploaded_files = n\<rparr>"

definition example_file :: "nat \<Rightarrow> string \<Rightarrow> string \<Rightarrow> string \<Rightarrow> int \<Rightarrow> string \<Rightarrow> job_files_row" where
  "example_file i folder name key sz st =
     \<lparr>job_id = ''job-1'', original_name = name, folder_name = folder, storage_key = key,
      size_bytes = sz, upload_status = st, file_index = Some i\<rparr>"


definition example_store_orphan :: store where
  "example_store_orphan = run [CreateDraft example_draft_batch_fails] empty_store"

definition example_status_orphan :: JobStatusResponse where
  "example_status_orphan =
     \<lparr>statusJobId = ''job-1'', statusOfJob = ''draft'', statusTotalFiles = 3,
      statusUploadedFiles = 0, pendingIndices = []\<rparr>"

definition example_calls :: "upload_call list" where
  "example_calls =
     [example_upload ''alice@example.com'' 1, example_upload ''alice@example.com'' 1,
      example_upload ''alice@example.com'' 0, example_upload ''mallory@example.com'' 2,
      example_upload ''alice@example.com'' 7, example_upload ''alice@example.com'' 2]"

definition example_store_1 :: store where
  "example_store_1 = upload_all [example_upload ''alice@example.com'' 1] example_store"

definition example_store_full :: store where
  "example_store_full = upload_all example_calls example_store"

definition example_store_submitted :: store where
  "example_store_submitted = snd (submitJob ''alice@example.com'' ''job-1'' example_store_full)"

section \<open>The statements of an upload\<close>

lemma counters_consistent_alt:
  "counters_consistent s \<longleftrightarrow>
     list_all (\<lambda>j. uploaded_files j = int (uploaded_count s (jobs_id j))) (jobs s)"
  by (simp add: counters_consistent_def uploaded_count_def files_of_def conj_commute)

lemma uploadFile_state:
  "snd (uploadFile c s) = s \<or>
   (\<exists>k v. snd (uploadFile c s) = s\<lparr>bucket := (bucket s)(k \<mapsto> v)\<rparr> \<or>
      uploadFault c = IncrementFails \<and>
        snd (uploadFile c s) =
          update_file_uploaded (callJobId c) (callFileIndex c) (s\<lparr>bucket := (bucket s)(k \<mapsto> v)\<rparr>) \<or>
      uploadFault c \<noteq> StatusUpdateFails \<and>
        snd (uploadFile c s) =
          upload_writes (callJobId c) (callFileIndex c) (s\<lparr>bucket := (bucket s)(k \<mapsto> v)\<rparr>))"
proof (cases "select_file_row s (callJobId c) (callFileIndex c) (callUser c)")
  case None
  then show ?thesis by (simp add: uploadFile_def)
next
  case (Some fileRow)
  note sel = this
  show ?thesis
  proof (cases "map_of (callForm c) ''file''")
    case None
    with sel show ?thesis by (simp add: uploadFile_def)
  next
    case (Some v)
    note form = this
    show ?thesis
    proof (cases v)
      case (FormString x)
      with form sel show ?thesis by (simp add: uploadFile_def)
    next
      case (FormFile payload)
      let ?s1 = "s\<lparr>bucket := (bucket s)(storage_key fileRow \<mapsto> payload)\<rparr>"
      show ?thesis
      proof (cases "putSucceeds c")
        case False
        with FormFile form sel show ?thesis by (simp add: uploadFile_def)
      next
        case True
        with FormFile form sel
        have "snd (uploadFile c s) = ?s1 \<or>
          uploadFault c = IncrementFails \<and>
            snd (uploadFile c s) = update_file_uploaded (callJobId c) (callFileIndex c) ?s1 \<or>
          uploadFault c \<noteq> StatusUpdateFails \<and>
            snd (uploadFile c s) = upload_writes (callJobId c) (callFileIndex c) ?s1"
          by (simp add: uploadFile_def upload_writes_def Let_def split: option.splits)
        then show ?thesis by blast
      qed
    qed
  qed
qed

lemma files_of_update:
  "files_of (update_file_uploaded J i s) j =
   map (\<lambda>jf. if is_pending_slot J i jf then jf\<lparr>upload_status := ''uploaded''\<rparr> else jf) (files_of s j)"
  by (simp add: files_of_def update_file_uploaded_def filter_map o_def if_distrib[of job_id] cong: if_cong)

lemma file_index_update:
  "map file_index (map (\<lambda>jf. if is_pending_slot J i jf then jf\<lparr>upload_status := ''uploaded''\<rparr> else jf) xs)
   = map file_index xs"
  by (induction xs) auto

lemma count_after_update:
  "length (filter (\<lambda>jf. upload_status jf = ''uploaded'')
     (map (\<lambda>jf. if is_pending_slot J i jf then jf\<lparr>upload_status := ''uploaded''\<rparr> else jf) xs))
   = length (filter (\<lambda>jf. upload_status jf = ''uploaded'') xs) + length (filter (is_pending_slot J i) xs)"
  by (induction xs) (auto simp: is_pending_slot_def)

lemma pending_slot_unique:
  "distinct (map file_index xs) \<Longrightarrow> length (filter (is_pending_slot J i) xs) \<le> 1"
proof (induction xs)
  case Nil
  then show ?case by simp
next
  case (Cons x xs)
  show ?case
  proof (cases "is_pending_slot J i x")
    case True
    then have "Some i \<notin> set (map file_index xs)"
      using Cons.prems by (auto simp: is_pending_slot_def)
    then have "\<forall>y\<in>set xs. \<not> is_pending_slot J i y"
      by (force simp: is_pending_slot_def)
    then have "filter (is_pending_slot J i) xs = []"
      by (simp add: filter_empty_conv)
    then show ?thesis using True by simp
  next
    case False
    then show ?thesis using Cons by simp
  qed
qed

lemma changes_files_of:
  "update_changes J i s = length (filter (is_pending_slot J i) (files_of s J))"
proof -
  have "filter (is_pending_slot J i) (files_of s J) = filter (is_pending_slot J i) (job_files s)"
    unfolding files_of_def filter_filter by (rule filter_cong) (auto simp: is_pending_slot_def)
  then show ?thesis by (simp add: update_changes_def)
qed

lemma no_changes_other_job:
  "j \<noteq> J \<Longrightarrow> filter (is_pending_slot J i) (files_of s j) = []"
  by (auto simp: files_of_def is_pending_slot_def filter_empty_conv)

lemma uploaded_count_update:
  "uploaded_count (update_file_uploaded J i s) j =
   uploaded_count s j + length (filter (is_pending_slot J i) (files_of s j))"
  unfolding uploaded_count_def files_of_update by (rule count_after_update)

lemma file_index_files_of_update:
  "map file_index (files_of (update_file_uploaded J i s) j) = map file_index (files_of s j)"
  unfolding files_of_update by (rule file_index_update)

lemma map_job_id_update:
  "map job_id (job_files (update_file_uploaded J i s)) = map job_id (job_files s)"
  by (simp add: update_file_uploaded_def o_def if_distrib[of job_id] cong: if_cong)

lemma job_ids_update [simp]:
  "job_id ` set (job_files (update_file_uploaded J i s)) = job_id ` set (job_files s)"
  using arg_cong [OF map_job_id_update [of J i s], of set] by (simp only: set_map)

lemma frame_update [simp]:
  "jobs (update_file_uploaded J i s) = jobs s"
  "bucket (update_file_uploaded J i s) = bucket s"
  "job_recipients (update_file_uploaded J i s) = job_recipients s"
  by (simp_all add: update_file_uploaded_def)

lemma map_jobs_id_increment:
  "map jobs_id (jobs (increment_uploaded J s)) = map jobs_id (jobs s)"
  by (simp add: increment_uploaded_def o_def if_distrib[of jobs_id] cong: if_cong)

lemma jobs_ids_increment [simp]:
  "jobs_id ` set (jobs (increment_uploaded J s)) = jobs_id ` set (jobs s)"
  using arg_cong [OF map_jobs_id_increment [of J s], of set] by (simp only: set_map)

lemma frame_increment [simp]:
  "job_files (increment_uploaded J s) = job_files s"
  "bucket (increment_uploaded J s) = bucket s"
  "job_recipients (increment_uploaded J s) = job_recipients s"
  "files_of (increment_uploaded J s) j = files_of s j"
  "uploaded_count (increment_uploaded J s) j = uploaded_count s j"
  by (simp_all add: increment_uploaded_def files_of_def uploaded_count_def)

lemma frame_bucket [simp]:
  "files_of (s\<lparr>bucket := b\<rparr>) j = files_of s j"
  "uploaded_count (s\<lparr>bucket := b\<rparr>) j = uploaded_count s j"
  "update_changes J i (s\<lparr>bucket := b\<rparr>) = update_changes J i s"
  by (simp_all add: files_of_def uploaded_count_def update_changes_def)

lemma foreign_keys_ok_iff:
  "foreign_keys_ok s \<longleftrightarrow> job_id ` set (job_files s) \<subseteq> jobs_id ` set (jobs s)"
proof -
  have "(\<exists>j\<in>set (jobs s). jobs_id j = x) \<longleftrightarrow> x \<in> jobs_id ` set (jobs s)" for x
    by (auto simp: image_iff)
  then show ?thesis
    unfolding foreign_keys_ok_def list_all_iff list_ex_iff by (simp add: image_subset_iff)
qed

section \<open>An upload keeps the invariants\<close>

lemma slots_distinct_writes:
  assumes "slots_distinct s"
  shows "slots_distinct (upload_writes J i s)"
proof -
  have upd: "slots_distinct (update_file_uploaded J i s)"
    using assms by (simp add: slots_distinct_def file_index_files_of_update)
  have "slots_distinct (increment_uploaded J t)" if "slots_distinct t" for t
  proof -
    have "\<forall>j\<in>set (jobs t). distinct (map file_index (files_of t (jobs_id j)))"
      using that by (simp add: slots_distinct_def list_all_iff)
    then show ?thesis
      by (auto simp: slots_distinct_def list_all_iff increment_uploaded_def files_of_def)
  qed
  with upd show ?thesis by (simp add: upload_writes_def)
qed

lemma counters_consistent_writes:
  assumes d: "slots_distinct s" and c: "counters_consistent s"
  shows "counters_consistent (upload_writes J i s)"
proof -
  let ?u = "update_file_uploaded J i s"
  have other: "uploaded_count ?u (jobs_id j) = uploaded_count s (jobs_id j)"
    if "jobs_id j \<noteq> J" for j
    using that by (simp add: uploaded_count_update no_changes_other_job)
  have same: "uploaded_count ?u J = uploaded_count s J + update_changes J i s"
    by (simp add: uploaded_count_update changes_files_of)
  have old: "uploaded_files j = int (uploaded_count s (jobs_id j))" if "j \<in> set (jobs s)" for j
    using c that by (simp add: counters_consistent_alt list_all_iff)
  show ?thesis
  proof (cases "update_changes J i s > 0")
    case False
    then have "uploaded_count ?u (jobs_id j) = uploaded_count s (jobs_id j)" for j
      using other [of j] same by (cases "jobs_id j = J") auto
    then have "uploaded_files j = int (uploaded_count ?u (jobs_id j))" if "j \<in> set (jobs s)" for j
      using old [OF that] by metis
    with False show ?thesis
      by (simp add: upload_writes_def counters_consistent_alt list_all_iff)
  next
    case True
    have one: "update_changes J i s = 1" if "j \<in> set (jobs s)" "jobs_id j = J" for j
    proof -
      have "distinct (map file_index (files_of s J))"
        using d that by (auto simp: slots_distinct_def list_all_iff)
      then have "update_changes J i s \<le> 1"
        unfolding changes_files_of by (rule pending_slot_unique)
      with True show ?thesis by simp
    qed
    have "uploaded_files j' = int (uploaded_count ?u (jobs_id j'))"
      if "j' \<in> set (jobs (increment_uploaded J ?u))" for j'
    proof -
      from that obtain j where j: "j \<in> set (jobs s)"
        and j': "j' = (if jobs_id j = J then j\<lparr>uploaded_files := uploaded_files j + 1\<rparr> else j)"
        by (auto simp: increment_uploaded_def)
      show ?thesis
      proof (cases "jobs_id j = J")
        case True
        with j j' old [OF j] one [OF j] same show ?thesis by simp
      next
        case False
        with j j' old [OF j] other [of j] show ?thesis by simp
      qed
    qed
    with True show ?thesis
      by (simp add: upload_writes_def counters_consistent_alt list_all_iff)
  qed
qed

lemma foreign_keys_ok_writes:
  "foreign_keys_ok s \<Longrightarrow> foreign_keys_ok (upload_writes J i s)"
  by (simp add: foreign_keys_ok_iff upload_writes_def)

lemma upload_inv_writes: "upload_inv s \<Longrightarrow> upload_inv (upload_writes J i s)"
  by (simp add: upload_inv_def slots_distinct_writes counters_consistent_writes foreign_keys_ok_writes)

lemma upload_inv_bucket: "upload_inv (s\<lparr>bucket := b\<rparr>) = upload_inv s"
  by (simp add: upload_inv_def foreign_keys_ok_def slots_distinct_def counters_consistent_alt)



lemma job_files_update:
  "job_files (update_file_uploaded J i s) = map (mark_uploaded J i) (job_files s)"
  by (simp add: update_file_uploaded_def mark_uploaded_def [abs_def])

lemma mark_uploaded_fields [simp]:
  "job_id (mark_uploaded J i jf) = job_id jf"
  "file_index (mark_uploaded J i jf) = file_index jf"
  "storage_key (mark_uploaded J i jf) = storage_key jf"
  "\<not> is_pending_slot J i (mark_uploaded J i jf)"
  by (simp_all add: mark_uploaded_def is_pending_slot_def)

lemma files_of_writes:
  "files_of (upload_writes J i s) k = map (mark_uploaded J i) (files_of s k)"
  by (simp add: upload_writes_def files_of_update mark_uploaded_def [abs_def])

lemma jobs_writes:
  "j' \<in> set (jobs (upload_writes J i s)) \<Longrightarrow>
   \<exists>j\<in>set (jobs s). jobs_id j' = jobs_id j \<and> total_files j' = total_files j"
  by (auto simp: upload_writes_def increment_uploaded_def split: if_splits)

lemma job_shape_writes:
  assumes "job_shape s j" and "jobs_id j' = jobs_id j" and "total_files j' = total_files j"
  shows "job_shape (upload_writes J i s) j'"
proof -
  have "list_all (\<lambda>jf. upload_status jf = ''pending'' \<or> upload_status jf = ''uploaded'')
          (map (mark_uploaded J i) xs)"
    if "list_all (\<lambda>jf. upload_status jf = ''pending'' \<or> upload_status jf = ''uploaded'') xs" for xs
    using that by (induction xs) (auto simp: mark_uploaded_def)
  then show ?thesis
    using assms by (simp add: job_shape_def files_of_writes o_def)
qed

lemma primary_key_ok_writes: "primary_key_ok (upload_writes J i s) = primary_key_ok s"
  by (simp add: primary_key_ok_def upload_writes_def map_jobs_id_increment)

lemma store_inv_writes:
  assumes "store_inv s"
  shows "store_inv (upload_writes J i s)"
proof -
  have "job_shape (upload_writes J i s) j'" if "j' \<in> set (jobs (upload_writes J i s))" for j'
  proof -
    from jobs_writes [OF that] obtain j where "j \<in> set (jobs s)"
      "jobs_id j' = jobs_id j" "total_files j' = total_files j" by blast
    moreover from this(1) assms have "job_shape s j"
      by (simp add: store_inv_def list_all_iff)
    ultimately show ?thesis by (simp add: job_shape_writes)
  qed
  then show ?thesis
    using assms by (simp add: store_inv_def upload_inv_writes primary_key_ok_writes list_all_iff)
qed

lemma store_inv_bucket: "store_inv (s\<lparr>bucket := b\<rparr>) = store_inv s"
  by (simp add: store_inv_def upload_inv_bucket primary_key_ok_def job_shape_def [abs_def])

lemma store_inv_uploadFile:
  "store_inv s \<Longrightarrow> uploadFault c \<noteq> IncrementFails \<Longrightarrow> store_inv (snd (uploadFile c s))"
  using uploadFile_state [of c s] by (auto simp: store_inv_writes store_inv_bucket)

section \<open>A draft keeps the invariants\<close>

lemma fileInserts_index:
  "map file_index (fileInserts c) = map Some [0..<length (fileMeta (draftBody c))]"
proof -
  let ?M = "fileMeta (draftBody c)"
  have "map file_index (fileInserts c) = map (\<lambda>x. Some (fst x)) (enumerate 0 ?M)"
    by (simp add: fileInserts_def o_def case_prod_beta)
  also have "\<dots> = map Some (map fst (enumerate 0 ?M))"
    by (simp only: map_map o_def)
  also have "\<dots> = map Some [0..<length ?M]"
    by (simp only: map_fst_enumerate add_0)
  finally show ?thesis .
qed

lemma fileInserts_rows:
  "jf \<in> set (fileInserts c) \<Longrightarrow> job_id jf = newJobId c \<and> upload_status jf = ''pending''"
  by (auto simp: fileInserts_def)

lemma length_fileInserts [simp]: "length (fileInserts c) = length (fileMeta (draftBody c))"
  by (simp add: fileInserts_def)

lemma filter_fileInserts:
  "filter (\<lambda>jf. job_id jf = j) (fileInserts c) = (if j = newJobId c then fileInserts c else [])"
  by (auto simp: filter_empty_conv dest: fileInserts_rows intro!: filter_True)

lemma uploaded_fileInserts:
  "filter (\<lambda>jf. upload_status jf = ''uploaded'') (fileInserts c) = []"
  by (auto simp: filter_empty_conv dest: fileInserts_rows)

lemma fresh_no_files:
  assumes "foreign_keys_ok s" and "\<not> list_ex (\<lambda>j. jobs_id j = J) (jobs s)"
  shows "files_of s J = []"
  using assms by (auto simp: foreign_keys_ok_def files_of_def list_all_iff list_ex_iff filter_empty_conv)

lemma createDraft_state:
  "snd (createDraft c s) = s \<or>
   (\<not> list_ex (\<lambda>j. jobs_id j = newJobId c) (jobs s) \<and>
     (snd (createDraft c s) = draft_inserted c s \<and> draftFault c = BatchFails \<or>
      snd (createDraft c s) = draft_batched c s \<and> draftFault c = NoFault))"
  by (cases "draftFault c") (auto simp: createDraft_def draft_inserted_def draft_batched_def Let_def)

lemma jobs_id_jobInsert [simp]: "jobs_id (jobInsert c) = newJobId c"
  by (simp add: jobInsert_def)

lemma files_of_inserted [simp]: "files_of (draft_inserted c s) j = files_of s j"
  by (simp add: files_of_def draft_inserted_def)

lemma files_of_batched:
  "files_of (draft_batched c s) j = files_of s j @ (if j = newJobId c then fileInserts c else [])"
  by (simp add: files_of_def draft_batched_def draft_inserted_def filter_fileInserts)


lemma upload_inv_batched:
  assumes "upload_inv s" and fresh: "\<not> list_ex (\<lambda>j. jobs_id j = newJobId c) (jobs s)"
  shows "upload_inv (draft_batched c s)"
proof -
  have nil: "files_of s (newJobId c) = []"
    using assms by (simp add: upload_inv_def fresh_no_files)
  have old: "jobs_id j \<noteq> newJobId c" if "j \<in> set (jobs s)" for j
    using fresh that by (auto simp: list_ex_iff)
  have jobs: "jobs (draft_batched c s) = jobs s @ [jobInsert c]"
    by (simp add: draft_batched_def draft_inserted_def)
  have "foreign_keys_ok (draft_batched c s)"
    using assms by (auto simp: upload_inv_def foreign_keys_ok_def draft_batched_def
        draft_inserted_def list_all_iff dest: fileInserts_rows)
  moreover have "distinct (map file_index (fileInserts c))"
    by (simp add: fileInserts_index distinct_map)
  then have "slots_distinct (draft_batched c s)"
    using assms nil old
    by (simp add: upload_inv_def slots_distinct_def list_all_iff jobs files_of_batched)
  moreover have "counters_consistent (draft_batched c s)"
    using assms nil old
    by (simp add: upload_inv_def counters_consistent_alt uploaded_count_def list_all_iff jobs
        files_of_batched uploaded_fileInserts) (simp add: jobInsert_def)
  ultimately show ?thesis by (simp add: upload_inv_def)
qed


lemma store_inv_batched:
  assumes "store_inv s" and fresh: "\<not> list_ex (\<lambda>j. jobs_id j = newJobId c) (jobs s)"
  shows "store_inv (draft_batched c s)"
proof -
  have up: "upload_inv s" using assms by (simp add: store_inv_def)
  have nil: "files_of s (newJobId c) = []"
    using up fresh by (simp add: upload_inv_def fresh_no_files)
  have old: "jobs_id j \<noteq> newJobId c" if "j \<in> set (jobs s)" for j
    using fresh that by (auto simp: list_ex_iff)
  have jobs: "jobs (draft_batched c s) = jobs s @ [jobInsert c]"
    by (simp add: draft_batched_def draft_inserted_def)
  have "newJobId c \<notin> set (map jobs_id (jobs s))"
    using fresh by (auto simp: list_ex_iff)
  then have "primary_key_ok (draft_batched c s)"
    using assms by (simp add: store_inv_def primary_key_ok_def jobs)
  moreover have "job_shape (draft_batched c s) (jobInsert c)"
    using fileInserts_rows [of _ c]
    by (simp add: job_shape_def files_of_batched nil fileInserts_index list_all_iff)
       (simp add: jobInsert_def)
  moreover have "job_shape (draft_batched c s) j" if "j \<in> set (jobs s)" for j
    using assms that old [OF that]
    by (simp add: store_inv_def list_all_iff job_shape_def files_of_batched)
  ultimately show ?thesis
    using upload_inv_batched [OF up fresh] by (simp add: store_inv_def jobs list_all_iff)
qed

lemma store_inv_createDraft:
  "store_inv s \<Longrightarrow> draftFault c \<noteq> BatchFails \<Longrightarrow> store_inv (snd (createDraft c s))"
  using createDraft_state [of c s] by (auto simp: store_inv_batched)

section \<open>Submit and complete keep the invariants\<close>

lemma find_map_pres:
  assumes "\<And>x. Q (f x) = P x"
  shows "find Q (map f xs) = map_option f (find P xs)"
  using assms by (induction xs) auto

lemma jobs_update_status:
  "jobs (update_status J st s) = map (\<lambda>j. if jobs_id j = J then j\<lparr>status := st\<rparr> else j) (jobs s)"
  by (simp add: update_status_def)

lemma select_owned_job_update_status:
  "select_owned_job (update_status J st s) K u =
   map_option (\<lambda>j. if jobs_id j = J then j\<lparr>status := st\<rparr> else j) (select_owned_job s K u)"
  unfolding select_owned_job_def jobs_update_status by (rule find_map_pres) simp

lemma files_of_update_status [simp]: "files_of (update_status J st s) k = files_of s k"
  by (simp add: files_of_def update_status_def)

lemma map_jobs_id_update_status:
  "map jobs_id (jobs (update_status J st s)) = map jobs_id (jobs s)"
  by (simp add: update_status_def o_def if_distrib [of jobs_id] cong: if_cong)

lemma jobs_update_status_mem:
  "j' \<in> set (jobs (update_status J st s)) \<Longrightarrow>
   \<exists>j\<in>set (jobs s). jobs_id j' = jobs_id j \<and> total_files j' = total_files j \<and>
      uploaded_files j' = uploaded_files j"
  by (auto simp: update_status_def split: if_splits)

lemma upload_inv_update_status:
  assumes "upload_inv s"
  shows "upload_inv (update_status J st s)"
proof -
  have "foreign_keys_ok (update_status J st s)"
  proof -
    have "jobs_id ` set (jobs (update_status J st s)) = jobs_id ` set (jobs s)"
      using arg_cong [OF map_jobs_id_update_status [of J st s], of set] by (simp only: set_map)
    moreover have "job_files (update_status J st s) = job_files s"
      by (simp add: update_status_def)
    ultimately show ?thesis
      using assms by (simp add: upload_inv_def foreign_keys_ok_iff)
  qed
  moreover have "slots_distinct (update_status J st s)"
    unfolding slots_distinct_def list_all_iff
  proof
    fix j' assume "j' \<in> set (jobs (update_status J st s))"
    from jobs_update_status_mem [OF this] obtain j where "j \<in> set (jobs s)" "jobs_id j' = jobs_id j"
      by blast
    with assms show "distinct (map file_index (files_of (update_status J st s) (jobs_id j')))"
      by (simp add: upload_inv_def slots_distinct_def list_all_iff)
  qed
  moreover have "counters_consistent (update_status J st s)"
    unfolding counters_consistent_alt list_all_iff
  proof
    fix j' assume "j' \<in> set (jobs (update_status J st s))"
    from jobs_update_status_mem [OF this] obtain j where "j \<in> set (jobs s)" "jobs_id j' = jobs_id j"
      "uploaded_files j' = uploaded_files j" by blast
    with assms show "uploaded_files j' = int (uploaded_count (update_status J st s) (jobs_id j'))"
      by (simp add: upload_inv_def counters_consistent_alt list_all_iff uploaded_count_def)
  qed
  ultimately show ?thesis by (simp add: upload_inv_def)
qed

lemma store_inv_update_status:
  assumes "store_inv s"
  shows "store_inv (update_status J st s)"
proof -
  have "job_shape (update_status J st s) j'" if "j' \<in> set (jobs (update_status J st s))" for j'
  proof -
    from jobs_update_status_mem [OF that] obtain j where "j \<in> set (jobs s)" "jobs_id j' = jobs_id j"
      "total_files j' = total_files j" by blast
    with assms show ?thesis
      by (simp add: store_inv_def list_all_iff job_shape_def)
  qed
  moreover have "primary_key_ok (update_status J st s)"
    using assms by (simp add: store_inv_def primary_key_ok_def map_jobs_id_update_status)
  ultimately show ?thesis
    using assms by (simp add: store_inv_def upload_inv_update_status list_all_iff)
qed

lemma submit_complete_state:
  "snd (submitJob u J s) = s \<or> snd (submitJob u J s) = update_status J ''pending'' s"
  "snd (completeJob u J s) = s \<or> snd (completeJob u J s) = update_status J ''completed'' s"
  "snd (getJobStatus u J s) = s"
  by (auto simp: submitJob_def completeJob_def getJobStatus_def split: option.splits)



lemma store_inv_submitJob: "store_inv s \<Longrightarrow> store_inv (snd (submitJob u J s))"
  using submit_complete_state(1) [of u J s] by (auto simp: store_inv_update_status)

lemma store_inv_completeJob: "store_inv s \<Longrightarrow> store_inv (snd (completeJob u J s))"
  using submit_complete_state(2) [of u J s] by (auto simp: store_inv_update_status)

section \<open>What the handlers keep whatever fails\<close>

lemma rows_inv_iff:
  "rows_inv s \<longleftrightarrow>
     job_id ` set (job_files s) \<subseteq> jobs_id ` set (jobs s) \<and>
     distinct (map jobs_id (jobs s)) \<and>
     (\<forall>J\<in>jobs_id ` set (jobs s). rows_ok (files_of s J))"
  by (simp add: rows_inv_def foreign_keys_ok_iff primary_key_ok_def list_all_iff)

lemma rows_inv_cong:
  assumes "job_files s' = job_files s" and "map jobs_id (jobs s') = map jobs_id (jobs s)"
  shows "rows_inv s' = rows_inv s"
proof -
  have "jobs_id ` set (jobs s') = jobs_id ` set (jobs s)"
    using arg_cong [OF assms(2), of set] by (simp only: set_map)
  moreover have "files_of s' k = files_of s k" for k
    by (simp add: files_of_def assms(1))
  ultimately show ?thesis
    unfolding rows_inv_iff by (simp add: assms)
qed

lemma rows_ok_marked:
  assumes "rows_ok xs"
  shows "rows_ok (map (\<lambda>jf. if is_pending_slot J i jf then jf\<lparr>upload_status := ''uploaded''\<rparr> else jf) xs)"
proof -
  have "list_all (\<lambda>jf. upload_status jf = ''pending'' \<or> upload_status jf = ''uploaded'')
          (map (\<lambda>jf. if is_pending_slot J i jf then jf\<lparr>upload_status := ''uploaded''\<rparr> else jf) ys)"
    if "list_all (\<lambda>jf. upload_status jf = ''pending'' \<or> upload_status jf = ''uploaded'') ys" for ys
    using that by (induction ys) auto
  then show ?thesis
    using assms unfolding rows_ok_def file_index_update by simp
qed

lemma rows_inv_update: "rows_inv s \<Longrightarrow> rows_inv (update_file_uploaded J i s)"
  unfolding rows_inv_iff files_of_update by (simp add: rows_ok_marked)

lemma rows_inv_increment: "rows_inv (increment_uploaded J s) = rows_inv s"
  by (rule rows_inv_cong) (simp_all add: map_jobs_id_increment)

lemma rows_inv_bucket: "rows_inv (s\<lparr>bucket := b\<rparr>) = rows_inv s"
  by (rule rows_inv_cong) simp_all

lemma rows_inv_writes: "rows_inv s \<Longrightarrow> rows_inv (upload_writes J i s)"
  by (simp add: upload_writes_def rows_inv_update rows_inv_increment)

lemma rows_inv_uploadFile: "rows_inv s \<Longrightarrow> rows_inv (snd (uploadFile c s))"
  using uploadFile_state [of c s] by (auto simp: rows_inv_writes rows_inv_update rows_inv_bucket)

lemma rows_inv_update_status: "rows_inv (update_status J st s) = rows_inv s"
  by (rule rows_inv_cong) (simp_all add: map_jobs_id_update_status, simp add: update_status_def)

lemma rows_ok_fileInserts: "rows_ok (fileInserts c)"
  using fileInserts_rows [of _ c] by (simp add: rows_ok_def fileInserts_index list_all_iff)

lemma rows_inv_draft:
  assumes "rows_inv s" and fresh: "\<not> list_ex (\<lambda>j. jobs_id j = newJobId c) (jobs s)"
  shows "rows_inv (draft_inserted c s)" and "rows_inv (draft_batched c s)"
proof -
  have fk: "foreign_keys_ok s" using assms(1) by (simp add: rows_inv_def)
  have nil: "files_of s (newJobId c) = []"
    using fk fresh by (rule fresh_no_files)
  have new: "newJobId c \<notin> jobs_id ` set (jobs s)"
    using fresh by (auto simp: list_ex_iff)
  have old: "J \<noteq> newJobId c" if "J \<in> jobs_id ` set (jobs s)" for J
    using new that by blast
  have jobs: "jobs (draft_inserted c s) = jobs s @ [jobInsert c]"
    "jobs (draft_batched c s) = jobs s @ [jobInsert c]"
    "job_files (draft_inserted c s) = job_files s"
    "job_files (draft_batched c s) = job_files s @ fileInserts c"
    by (simp_all add: draft_batched_def draft_inserted_def)
  have ins: "job_id ` set (fileInserts c) \<subseteq> {newJobId c}"
    using fileInserts_rows [of _ c] by auto
  show "rows_inv (draft_inserted c s)"
    using assms(1) new nil unfolding rows_inv_iff jobs
    by (auto simp: rows_ok_def)
  show "rows_inv (draft_batched c s)"
    using assms(1) new nil old ins unfolding rows_inv_iff jobs
    by (auto simp: files_of_batched rows_ok_fileInserts)
qed

lemma rows_inv_createDraft: "rows_inv s \<Longrightarrow> rows_inv (snd (createDraft c s))"
  using createDraft_state [of c s] by (auto simp: rows_inv_draft)

lemma rows_inv_submitJob: "rows_inv s \<Longrightarrow> rows_inv (snd (submitJob u J s))"
  using submit_complete_state(1) [of u J s] by (auto simp: rows_inv_update_status)

lemma rows_inv_completeJob: "rows_inv s \<Longrightarrow> rows_inv (snd (completeJob u J s))"
  using submit_complete_state(2) [of u J s] by (auto simp: rows_inv_update_status)

lemma rows_inv_handle: "rows_inv s \<Longrightarrow> rows_inv (handle r s)"
  by (cases r) (simp_all add: rows_inv_createDraft rows_inv_uploadFile rows_inv_submitJob
      rows_inv_completeJob submit_complete_state(3))

lemma rows_inv_run: "rows_inv s \<Longrightarrow> rows_inv (run rs s)"
  by (induction rs arbitrary: s) (simp_all add: rows_inv_handle)

lemma store_inv_rows_inv: "store_inv s \<Longrightarrow> rows_inv s"
  by (simp add: store_inv_def upload_inv_def rows_inv_def job_shape_def rows_ok_def list_all_iff)












section \<open>Every store the handlers can reach\<close>


lemma store_inv_handle:
  "store_inv s \<Longrightarrow> batch_succeeds r \<Longrightarrow> increment_succeeds r \<Longrightarrow> store_inv (handle r s)"
  by (cases r) (simp_all add: store_inv_createDraft store_inv_uploadFile store_inv_submitJob
      store_inv_completeJob submit_complete_state(3))

lemma store_inv_empty: "store_inv empty_store"
  by (simp add: store_inv_def upload_inv_def foreign_keys_ok_def slots_distinct_def
      counters_consistent_alt primary_key_ok_def empty_store_def)

lemma rows_inv_empty: "rows_inv empty_store"
  using store_inv_empty by (rule store_inv_rows_inv)


lemma store_inv_run:
  "store_inv s \<Longrightarrow> list_all batch_succeeds rs \<Longrightarrow> list_all increment_succeeds rs \<Longrightarrow>
   store_inv (run rs s)"
  by (induction rs arbitrary: s) (simp_all add: store_inv_handle)

section \<open>Lookups\<close>

lemma select_job_unique:
  assumes "primary_key_ok s" and "select_job s J = Some job" and "j \<in> set (jobs s)" and "jobs_id j = J"
  shows "j = job"
proof -
  from assms(2) have "job \<in> set (jobs s)" "jobs_id job = J"
    by (auto simp: select_job_def find_Some_iff)
  with assms show ?thesis
    by (auto simp: primary_key_ok_def distinct_map inj_on_def)
qed

lemma select_file_row_None:
  assumes "\<forall>j\<in>set (jobs s). jobs_id j = J \<longrightarrow> \<not> (user_email j = u \<and> status j = ''draft'')"
  shows "select_file_row s J i u = None"
  using assms by (auto simp: select_file_row_def find_None_iff list_ex_iff)

lemma select_owned_job_None:
  assumes "\<forall>j\<in>set (jobs s). jobs_id j = J \<longrightarrow> user_email j \<noteq> u"
  shows "select_owned_job s J u = None"
  using assms by (auto simp: select_owned_job_def find_None_iff)

lemma select_job_None: "select_job s J = None \<Longrightarrow> j \<in> set (jobs s) \<Longrightarrow> jobs_id j \<noteq> J"
  by (auto simp: select_job_def find_None_iff)

lemma select_job_Some:
  assumes "select_job s J = Some job"
  shows "job \<in> set (jobs s)" "jobs_id job = J"
  using assms by (auto simp: select_job_def find_Some_iff)

lemma select_file_row_Some:
  assumes "select_file_row s J i u = Some fileRow"
  shows "fileRow \<in> set (job_files s)" "job_id fileRow = J" "file_index fileRow = Some i"
    "\<exists>j\<in>set (jobs s). jobs_id j = J \<and> user_email j = u \<and> status j = ''draft''"
  using assms by (auto simp: select_file_row_def find_Some_iff list_ex_iff)

lemma select_owned_job_Some:
  assumes "select_owned_job s J u = Some job"
  shows "job \<in> set (jobs s)" "jobs_id job = J" "user_email job = u"
  using assms by (auto simp: select_owned_job_def find_Some_iff)

lemma select_job_update [simp]: "select_job (update_file_uploaded J i s) K = select_job s K"
  by (simp add: select_job_def)

lemma jobs_increment:
  "jobs (increment_uploaded J s) =
   map (\<lambda>j. if jobs_id j = J then j\<lparr>uploaded_files := uploaded_files j + 1\<rparr> else j) (jobs s)"
  by (simp add: increment_uploaded_def)

lemma select_job_increment:
  "select_job (increment_uploaded J s) K =
   map_option (\<lambda>j. if jobs_id j = J then j\<lparr>uploaded_files := uploaded_files j + 1\<rparr> else j) (select_job s K)"
  unfolding select_job_def jobs_increment by (rule find_map_pres) simp

lemma select_file_row_job:
  assumes "select_file_row s J i u = Some fileRow"
  shows "\<exists>job. select_job s J = Some job"
proof -
  from assms have "list_ex (\<lambda>j. jobs_id j = J) (jobs s)"
    by (auto simp: select_file_row_def find_Some_iff list_ex_iff)
  then show ?thesis
    by (cases "select_job s J") (auto simp: select_job_def find_None_iff list_ex_iff)
qed

lemma select_job_writes:
  assumes "select_job s J = Some job"
  shows "select_job (upload_writes J i s) J =
         Some (job\<lparr>uploaded_files := uploaded_files job + (if update_changes J i s > 0 then 1 else 0)\<rparr>)"
  using assms select_job_Some(2) [OF assms]
  by (simp add: upload_writes_def select_job_increment)

lemma uploadFile_success:
  assumes "select_file_row s (callJobId c) (callFileIndex c) (callUser c) = Some fileRow"
    and "map_of (callForm c) ''file'' = Some (FormFile payload)"
    and "putSucceeds c"
    and "select_job s (callJobId c) = Some job"
    and "uploadFault c = NoUploadFault"
  shows "uploadFile c s =
    (Inr \<lparr>fileIndex = callFileIndex c,
          uploadedFiles = uploaded_files job +
             (if update_changes (callJobId c) (callFileIndex c) s > 0 then 1 else 0),
          totalFiles = total_files job\<rparr>,
     upload_writes (callJobId c) (callFileIndex c)
       (s\<lparr>bucket := (bucket s)(storage_key fileRow \<mapsto> payload)\<rparr>))"
proof -
  let ?s0 = "s\<lparr>bucket := (bucket s)(storage_key fileRow \<mapsto> payload)\<rparr>"
  have "select_job ?s0 (callJobId c) = Some job"
    using assms(4) by (simp add: select_job_def)
  from select_job_writes [OF this, of "callFileIndex c"]
  have "select_job (upload_writes (callJobId c) (callFileIndex c) ?s0) (callJobId c) =
     Some (job\<lparr>uploaded_files := uploaded_files job +
        (if update_changes (callJobId c) (callFileIndex c) s > 0 then 1 else 0)\<rparr>)"
    by simp
  then show ?thesis
    using assms(1-3,5) by (simp add: uploadFile_def upload_writes_def Let_def)
qed

lemma draft_owner_increment:
  "list_ex (\<lambda>j. jobs_id j = a \<and> user_email j = u \<and> status j = ''draft'') (jobs (increment_uploaded J s))
   = list_ex (\<lambda>j. jobs_id j = a \<and> user_email j = u \<and> status j = ''draft'') (jobs s)"
proof -
  have "list_ex P (map f xs) = list_ex P xs" if "\<And>x. P (f x) = P x"
    for P and f :: "jobs_row \<Rightarrow> jobs_row" and xs
    using that by (induction xs) simp_all
  then show ?thesis
    unfolding increment_uploaded_def by simp
qed

lemma select_file_row_writes:
  "select_file_row (upload_writes J i s) J i u = map_option (mark_uploaded J i) (select_file_row s J i u)"
proof -
  have own: "list_ex (\<lambda>j. jobs_id j = a \<and> user_email j = u \<and> status j = ''draft'') (jobs (upload_writes J i s))
      = list_ex (\<lambda>j. jobs_id j = a \<and> user_email j = u \<and> status j = ''draft'') (jobs s)" for a
    by (simp add: upload_writes_def draft_owner_increment)
  have files: "job_files (upload_writes J i s) = map (mark_uploaded J i) (job_files s)"
    by (simp add: upload_writes_def job_files_update)
  show ?thesis
    unfolding select_file_row_def files own by (rule find_map_pres) simp
qed

lemma no_changes_after_writes: "update_changes J i (upload_writes J i s) = 0"
proof -
  have "job_files (upload_writes J i s) = map (mark_uploaded J i) (job_files s)"
    by (simp add: upload_writes_def job_files_update)
  then show ?thesis
    by (simp add: update_changes_def filter_empty_conv)
qed

lemma bucket_writes [simp]: "bucket (upload_writes J i s) = bucket s"
  by (simp add: upload_writes_def)

lemma pending_row_changes:
  assumes sel: "select_file_row s J i u = Some fileRow" and "upload_status fileRow = ''pending''"
  shows "update_changes J i s > 0"
proof -
  note row = select_file_row_Some [OF sel]
  from row assms(2) have "is_pending_slot J i fileRow"
    by (simp add: is_pending_slot_def)
  with row(1) have "filter (is_pending_slot J i) (job_files s) \<noteq> []"
    by (auto simp: filter_empty_conv)
  then show ?thesis
    by (simp add: update_changes_def)
qed

lemma store_inv_job:
  assumes "store_inv s" and "job \<in> set (jobs s)"
  shows "job_shape s job" "uploaded_files job = int (uploaded_count s (jobs_id job))"
  using assms by (auto simp: store_inv_def upload_inv_def counters_consistent_alt list_all_iff)

lemma uploaded_le_total:
  assumes "store_inv s" and "job \<in> set (jobs s)"
  shows "uploaded_files job \<le> total_files job"
  using store_inv_job [OF assms] by (simp add: job_shape_def uploaded_count_def)

lemma select_pending_files_of:
  "select_pending s J = filter (\<lambda>jf. upload_status jf = ''pending'') (files_of s J)"
  by (simp add: select_pending_def files_of_def conj_commute)

lemma pending_plus_uploaded:
  assumes "list_all (\<lambda>jf. upload_status jf = ''pending'' \<or> upload_status jf = ''uploaded'') xs"
  shows "length (filter (\<lambda>jf. upload_status jf = ''pending'') xs) +
         length (filter (\<lambda>jf. upload_status jf = ''uploaded'') xs) = length xs"
  using assms by (induction xs) auto

lemma indexed_rows:
  assumes "map file_index xs = map Some [0..<length xs]"
  shows "map (the \<circ> file_index) xs = [0..<length xs]"
    and "x \<in> set xs \<Longrightarrow> \<exists>k. file_index x = Some k"
proof -
  have "map the (map file_index xs) = map the (map Some [0..<length xs])"
    using assms by simp
  then show "map (the \<circ> file_index) xs = [0..<length xs]"
    by (simp add: o_def)
  assume "x \<in> set xs"
  then have "file_index x \<in> set (map file_index xs)" by simp
  then have "file_index x \<in> set (map Some [0..<length xs])" using assms by simp
  then show "\<exists>k. file_index x = Some k" by auto
qed

lemma pending_indices_sorted:
  assumes "map file_index (files_of s J) = map Some [0..<length (files_of s J)]"
  shows "map file_index (select_pending s J) = map Some (sorted_list_of_set (pending_index_set s J))"
proof -
  let ?g = "the \<circ> file_index"
  let ?rows = "files_of s J"
  let ?ks = "map ?g (select_pending s J)"
  note ix = indexed_rows [OF assms]
  have "sorted (map ?g ?rows)" "distinct (map ?g ?rows)"
    by (simp_all only: ix(1) sorted_upt distinct_upt)
  then have "sorted ?ks" "distinct ?ks"
    unfolding select_pending_files_of by (simp_all only: sorted_filter distinct_map_filter)
  then have "sorted_list_of_set (set ?ks) = ?ks"
    by (intro sorted_distinct_set_unique) simp_all
  moreover have "set ?ks = pending_index_set s J"
  proof (rule set_eqI)
    fix i
    show "i \<in> set ?ks \<longleftrightarrow> i \<in> pending_index_set s J"
    proof
      assume "i \<in> set ?ks"
      then obtain x where x: "x \<in> set ?rows" "upload_status x = ''pending''" "?g x = i"
        by (auto simp: select_pending_files_of)
      moreover from x(1) obtain k where "file_index x = Some k"
        using ix(2) by blast
      ultimately have "file_index x = Some i" by simp
      with x show "i \<in> pending_index_set s J"
        by (auto simp: pending_index_set_def files_of_def)
    next
      assume "i \<in> pending_index_set s J"
      then obtain jf where "jf \<in> set ?rows" "upload_status jf = ''pending''" "file_index jf = Some i"
        by (auto simp: pending_index_set_def files_of_def)
      then have "jf \<in> set (select_pending s J)" "i = ?g jf"
        by (simp_all add: select_pending_files_of)
      then show "i \<in> set ?ks"
        unfolding set_map by (intro image_eqI [where x = jf])
    qed
  qed
  moreover have "map file_index (select_pending s J) = map Some ?ks"
  proof -
    have "file_index x = (Some \<circ> ?g) x" if "x \<in> set (select_pending s J)" for x
    proof -
      from that have "x \<in> set ?rows" by (simp add: select_pending_files_of)
      then obtain k where "file_index x = Some k" using ix(2) by blast
      then show ?thesis by simp
    qed
    then have "map file_index (select_pending s J) = map (Some \<circ> ?g) (select_pending s J)"
      by (intro map_cong [OF refl])
    then show ?thesis by (simp only: map_map)
  qed
  ultimately show ?thesis by simp
qed

section \<open>The example job, evaluated\<close>

lemma example_store_rows:
  "jobs example_store = [example_job 0]"
  "job_files example_store =
     [example_file 0 ''docs'' ''a.png'' ''jobs/job-1/u0-a.png'' 10 ''pending'',
      example_file 1 ''docs'' ''b.png'' ''jobs/job-1/u1-b.png'' 20 ''pending'',
      example_file 2 ''pics'' ''c.png'' ''jobs/job-1/u2-c.png'' 30 ''pending'']"
  "job_recipients example_store =
     [\<lparr>recipient_job_id = ''job-1'', email = ''bob@example.com'', source = ''direct''\<rparr>]"
  by (simp_all add: example_store_def example_draft_def createDraft_def empty_store_def
      jobInsert_def fileInserts_def recipientInserts_def storageKeys_def bool_to_int_def
      example_job_def example_file_def enumerate_eq_zip Let_def)

lemma example_store_inv: "store_inv example_store"
  by (simp add: store_inv_def upload_inv_def foreign_keys_ok_def slots_distinct_def
      counters_consistent_alt uploaded_count_def files_of_def primary_key_ok_def job_shape_def
      example_store_rows example_job_def example_file_def)

lemmas example_eval =
  uploadFile_def select_file_row_def select_job_def select_owned_job_def update_changes_def
  update_file_uploaded_def increment_uploaded_def is_pending_slot_def update_status_def
  select_pending_def submitJob_def getJobStatus_def
  example_upload_def example_store_rows example_job_def example_file_def Let_def


lemma example_store_1_rows:
  "jobs example_store_1 = [example_job 1]"
  "job_files example_store_1 =
     [example_file 0 ''docs'' ''a.png'' ''jobs/job-1/u0-a.png'' 10 ''pending'',
      example_file 1 ''docs'' ''b.png'' ''jobs/job-1/u1-b.png'' 20 ''uploaded'',
      example_file 2 ''pics'' ''c.png'' ''jobs/job-1/u2-c.png'' 30 ''pending'']"
  by (simp_all add: example_store_1_def example_eval)

lemma example_store_full_rows:
  "jobs example_store_full = [example_job 3]"
  "job_files example_store_full =
     [example_file 0 ''docs'' ''a.png'' ''jobs/job-1/u0-a.png'' 10 ''uploaded'',
      example_file 1 ''docs'' ''b.png'' ''jobs/job-1/u1-b.png'' 20 ''uploaded'',
      example_file 2 ''pics'' ''c.png'' ''jobs/job-1/u2-c.png'' 30 ''uploaded'']"
  by (simp_all add: example_store_full_def example_calls_def example_eval)

lemma example_store_submitted_rows:
  "jobs example_store_submitted = [(example_job 3)\<lparr>status := ''pending''\<rparr>]"
  by (simp add: example_store_submitted_def example_store_full_rows submitJob_def
      select_owned_job_def update_status_def example_job_def)

lemmas inv_eval =
  store_inv_def upload_inv_def foreign_keys_ok_def slots_distinct_def
  counters_consistent_alt uploaded_count_def files_of_def primary_key_ok_def job_shape_def
  example_job_def example_file_def

section \<open>The upload counter\<close>




text \<open>
  C2. For a draft job owned by the caller and a registered index \<open>i\<close> whose slot is
  still \<^verbatim>\<open>'pending'\<close>, with a file in the form and a put and statements that succeed:
  a first upload-file call for \<open>i\<close> and its retry both return success, the first
  increments \<^verbatim>\<open>uploadedFiles\<close> by exactly 1 and the retry by nothing, so that after
  the two calls the counter is the value before plus 1, not 2. After each call the
  bucket holds that call's bytes under the pre-assigned key; \<open>c2\<close> is the retry, which
  is \<open>c\<close> again or the same user, job and index with other bytes.
\<close>

theorem upload_twice_counts_once:
  assumes sel: "select_file_row s (callJobId c) (callFileIndex c) (callUser c) = Some fileRow"
    and pending: "upload_status fileRow = ''pending''"
    and job: "select_job s (callJobId c) = Some job"
    and form: "map_of (callForm c) ''file'' = Some (FormFile payload)"
    and put: "putSucceeds c"
    and ok: "uploadFault c = NoUploadFault"
    and same: "callUser c2 = callUser c" "callJobId c2 = callJobId c" "callFileIndex c2 = callFileIndex c"
    and form2: "map_of (callForm c2) ''file'' = Some (FormFile payload2)"
    and put2: "putSucceeds c2"
    and ok2: "uploadFault c2 = NoUploadFault"
  shows "fst (uploadFile c s) =
           Inr \<lparr>fileIndex = callFileIndex c, uploadedFiles = uploaded_files job + 1,
                totalFiles = total_files job\<rparr> \<and>
         bucket (snd (uploadFile c s)) (storage_key fileRow) = Some payload \<and>
         fst (uploadFile c2 (snd (uploadFile c s))) =
           Inr \<lparr>fileIndex = callFileIndex c, uploadedFiles = uploaded_files job + 1,
                totalFiles = total_files job\<rparr> \<and>
         bucket (snd (uploadFile c2 (snd (uploadFile c s)))) (storage_key fileRow) = Some payload2 \<and>
         select_job (snd (uploadFile c2 (snd (uploadFile c s)))) (callJobId c) =
           Some (job\<lparr>uploaded_files := uploaded_files job + 1\<rparr>)"
proof -
  let ?J = "callJobId c" and ?i = "callFileIndex c"
  let ?s0 = "s\<lparr>bucket := (bucket s)(storage_key fileRow \<mapsto> payload)\<rparr>"
  let ?s1 = "upload_writes ?J ?i ?s0"
  let ?job1 = "job\<lparr>uploaded_files := uploaded_files job + 1\<rparr>"
  let ?row1 = "mark_uploaded ?J ?i fileRow"
  have dd: "update_changes ?J ?i s > 0"
    using pending_row_changes [OF sel pending] .
  have first: "uploadFile c s =
      (Inr \<lparr>fileIndex = ?i, uploadedFiles = uploaded_files job + 1, totalFiles = total_files job\<rparr>, ?s1)"
    using uploadFile_success [OF sel form put job ok] dd by simp
  have sel0: "select_file_row ?s0 ?J ?i (callUser c) = Some fileRow"
    using sel by (simp add: select_file_row_def)
  have job0: "select_job ?s0 ?J = Some job"
    using job by (simp add: select_job_def)
  have sel1: "select_file_row ?s1 (callJobId c2) (callFileIndex c2) (callUser c2) = Some ?row1"
    using sel0 by (simp add: same select_file_row_writes)
  have job1: "select_job ?s1 (callJobId c2) = Some ?job1"
    using select_job_writes [OF job0, of ?i] dd by (simp add: same)
  have second: "uploadFile c2 ?s1 =
      (Inr \<lparr>fileIndex = ?i, uploadedFiles = uploaded_files job + 1, totalFiles = total_files job\<rparr>,
       upload_writes ?J ?i (?s1\<lparr>bucket := (bucket ?s1)(storage_key fileRow \<mapsto> payload2)\<rparr>))"
    using uploadFile_success [OF sel1 form2 put2 job1 ok2] by (simp add: same no_changes_after_writes)
  have "select_job (?s1\<lparr>bucket := (bucket ?s1)(storage_key fileRow \<mapsto> payload2)\<rparr>) ?J = Some ?job1"
    using job1 by (simp add: same select_job_def)
  from select_job_writes [OF this, of ?i]
  have last: "select_job (upload_writes ?J ?i (?s1\<lparr>bucket := (bucket ?s1)(storage_key fileRow \<mapsto> payload2)\<rparr>)) ?J
      = Some ?job1"
    by (simp add: no_changes_after_writes)
  show ?thesis
    unfolding first second fst_conv snd_conv using last by simp
qed

theorem upload_twice_counts_once_witness:
  "select_file_row example_store ''job-1'' 1 ''alice@example.com'' =
     Some (example_file 1 ''docs'' ''b.png'' ''jobs/job-1/u1-b.png'' 20 ''pending'') \<and>
   select_job example_store ''job-1'' = Some (example_job 0) \<and>
   fst (uploadFile (example_upload ''alice@example.com'' 1) example_store) =
     Inr \<lparr>fileIndex = 1, uploadedFiles = 1, totalFiles = 3\<rparr> \<and>
   fst (uploadFile (example_upload ''alice@example.com'' 1)
         (snd (uploadFile (example_upload ''alice@example.com'' 1) example_store))) =
     Inr \<lparr>fileIndex = 1, uploadedFiles = 1, totalFiles = 3\<rparr> \<and>
   bucket (snd (uploadFile (example_upload ''alice@example.com'' 1)
         (snd (uploadFile (example_upload ''alice@example.com'' 1) example_store))))
      ''jobs/job-1/u1-b.png'' = Some ''bytes''"
proof -
  let ?c = "example_upload ''alice@example.com'' 1"
  let ?row = "example_file 1 ''docs'' ''b.png'' ''jobs/job-1/u1-b.png'' 20 ''pending''"
  have h2: "select_file_row example_store (callJobId ?c) (callFileIndex ?c) (callUser ?c) = Some ?row"
    by (simp add: select_file_row_def example_upload_def example_store_rows example_job_def
        example_file_def)
  have h3: "select_job example_store (callJobId ?c) = Some (example_job 0)"
    by (simp add: select_job_def example_upload_def example_store_rows example_job_def)
  have h4: "map_of (callForm ?c) ''file'' = Some (FormFile ''bytes'')" and h5: "putSucceeds ?c"
    and h7: "uploadFault ?c = NoUploadFault"
    by (simp_all add: example_upload_def)
  have h6: "upload_status ?row = ''pending''"
    by (simp add: example_file_def)
  from upload_twice_counts_once [OF h2 h6 h3 h4 h5 h7 refl refl refl h4 h5 h7]
  show ?thesis
    using h2 h3 by (simp add: example_upload_def example_job_def example_file_def)
qed

section \<open>The writes of a draft\<close>

text \<open>
  C3, as stated, fails: the row of the job is inserted by a statement of its own before
  the batch. In the example, when the batch fails, the call fails and the store holds
  the row of the job, with \<^verbatim>\<open>total_files = 3\<close>, and none of its three file rows nor its
  recipient row: \<open>draft_rows_atomic\<close> is false of it.
\<close>

theorem createDraft_batch_failure_counterexample:
  "fst (createDraft example_draft_batch_fails empty_store) = Inl D1Error \<and>
   select_job (snd (createDraft example_draft_batch_fails empty_store)) ''job-1'' = Some (example_job 0) \<and>
   length (fileMeta (draftBody example_draft_batch_fails)) = 3 \<and>
   length (recipients (draftBody example_draft_batch_fails)) = 1 \<and>
   job_files (snd (createDraft example_draft_batch_fails empty_store)) = [] \<and>
   job_recipients (snd (createDraft example_draft_batch_fails empty_store)) = [] \<and>
   \<not> draft_rows_atomic example_draft_batch_fails
       (snd (createDraft example_draft_batch_fails empty_store))"
  by (simp add: example_draft_batch_fails_def example_draft_def createDraft_def empty_store_def
      jobInsert_def bool_to_int_def select_job_def example_job_def Let_def
      draft_rows_atomic_def files_of_def recipients_of_def fileInserts_def)

text \<open>
  C3, amended. create-draft writes twice: the row of the job, then one batch with every
  \<^verbatim>\<open>job_files\<close> row and every \<^verbatim>\<open>job_recipients\<close> row. The call returns the job id
  or fails with a database error. When it returns the job id, the row of the job and
  all the rows of the batch have been appended: one file row per metadata entry, with
  its position as index and status \<^verbatim>\<open>'pending'\<close>, and one row per recipient. When it
  fails, no file row and no recipient row has been written, and the row of the job has
  been written or not; when the batch fails for a fresh job id, it has.
\<close>

theorem createDraft_two_writes:
  "(fst (createDraft c s) = Inr (newJobId c) \<or> fst (createDraft c s) = Inl D1Error) \<and>
   (fst (createDraft c s) = Inr (newJobId c) \<longrightarrow>
      jobs (snd (createDraft c s)) = jobs s @ [jobInsert c] \<and>
      job_files (snd (createDraft c s)) = job_files s @ fileInserts c \<and>
      job_recipients (snd (createDraft c s)) = job_recipients s @ recipientInserts c) \<and>
   (fst (createDraft c s) = Inl D1Error \<longrightarrow>
      job_files (snd (createDraft c s)) = job_files s \<and>
      job_recipients (snd (createDraft c s)) = job_recipients s \<and>
      (jobs (snd (createDraft c s)) = jobs s \<or>
       jobs (snd (createDraft c s)) = jobs s @ [jobInsert c])) \<and>
   (draftFault c = BatchFails \<and> \<not> list_ex (\<lambda>j. jobs_id j = newJobId c) (jobs s) \<longrightarrow>
      fst (createDraft c s) = Inl D1Error \<and>
      jobs (snd (createDraft c s)) = jobs s @ [jobInsert c]) \<and>
   map file_index (fileInserts c) = map Some [0..<length (fileMeta (draftBody c))] \<and>
   list_all (\<lambda>jf. job_id jf = newJobId c \<and> upload_status jf = ''pending'') (fileInserts c) \<and>
   map email (recipientInserts c) = map recipientEmail (recipients (draftBody c)) \<and>
   list_all (\<lambda>r. recipient_job_id r = newJobId c) (recipientInserts c)"
proof -
  have "list_all (\<lambda>jf. job_id jf = newJobId c \<and> upload_status jf = ''pending'') (fileInserts c)"
    using fileInserts_rows [of _ c] by (simp add: list_all_iff)
  moreover have "map email (recipientInserts c) = map recipientEmail (recipients (draftBody c))"
    "list_all (\<lambda>r. recipient_job_id r = newJobId c) (recipientInserts c)"
    by (simp_all add: recipientInserts_def list_all_iff o_def)
  moreover note fileInserts_index [of c]
  moreover have
   "(fst (createDraft c s) = Inr (newJobId c) \<or> fst (createDraft c s) = Inl D1Error) \<and>
   (fst (createDraft c s) = Inr (newJobId c) \<longrightarrow>
      jobs (snd (createDraft c s)) = jobs s @ [jobInsert c] \<and>
      job_files (snd (createDraft c s)) = job_files s @ fileInserts c \<and>
      job_recipients (snd (createDraft c s)) = job_recipients s @ recipientInserts c) \<and>
   (fst (createDraft c s) = Inl D1Error \<longrightarrow>
      job_files (snd (createDraft c s)) = job_files s \<and>
      job_recipients (snd (createDraft c s)) = job_recipients s \<and>
      (jobs (snd (createDraft c s)) = jobs s \<or>
       jobs (snd (createDraft c s)) = jobs s @ [jobInsert c])) \<and>
   (draftFault c = BatchFails \<and> \<not> list_ex (\<lambda>j. jobs_id j = newJobId c) (jobs s) \<longrightarrow>
      fst (createDraft c s) = Inl D1Error \<and>
      jobs (snd (createDraft c s)) = jobs s @ [jobInsert c])"
    by (cases "draftFault c") (simp_all add: createDraft_def Let_def)
  ultimately show ?thesis by blast
qed

theorem createDraft_two_writes_witness:
  "draft_rows_atomic example_draft (snd (createDraft example_draft empty_store)) \<and>
   fst (createDraft example_draft empty_store) = Inr ''job-1'' \<and>
   jobs (snd (createDraft example_draft empty_store)) = [jobInsert example_draft] \<and>
   job_files (snd (createDraft example_draft empty_store)) = fileInserts example_draft \<and>
   job_recipients (snd (createDraft example_draft empty_store)) = recipientInserts example_draft \<and>
   map file_index (fileInserts example_draft) = [Some 0, Some 1, Some 2] \<and>
   fst (createDraft example_draft_batch_fails empty_store) = Inl D1Error \<and>
   jobs (snd (createDraft example_draft_batch_fails empty_store)) = [jobInsert example_draft_batch_fails] \<and>
   job_files (snd (createDraft example_draft_batch_fails empty_store)) = []"
proof -
  have ok: "fst (createDraft example_draft empty_store) = Inr (newJobId example_draft)"
    by (simp add: createDraft_def example_draft_def empty_store_def)
  have id: "newJobId example_draft = ''job-1''" "length (fileMeta (draftBody example_draft)) = 3"
    by (simp_all add: example_draft_def)
  have bad: "draftFault example_draft_batch_fails = BatchFails \<and>
      \<not> list_ex (\<lambda>j. jobs_id j = newJobId example_draft_batch_fails) (jobs empty_store)"
    by (simp add: example_draft_batch_fails_def empty_store_def)
  have e: "jobs empty_store = []" "job_files empty_store = []" "job_recipients empty_store = []"
    by (simp_all add: empty_store_def)
  have three: "[0..<3] = [0, 1, 2]"
    by (simp add: upt_rec)
  have at: "draft_rows_atomic example_draft (snd (createDraft example_draft empty_store))"
    by (simp add: draft_rows_atomic_def createDraft_def empty_store_def select_job_def
        files_of_def recipients_of_def example_draft_def Let_def
        filter_fileInserts [unfolded example_draft_def] recipientInserts_def)
  show ?thesis
    using createDraft_two_writes [of example_draft empty_store] createDraft_two_writes [of example_draft_batch_fails empty_store] ok bad at
    by (simp add: id e three)
qed

section \<open>Submit\<close>

text \<open>
  C4. For a job the caller owns, in a store with \<open>store_inv\<close>: submit fails with
  400 \<^verbatim>\<open>Already submitted.\<close> whenever the status is not \<^verbatim>\<open>'draft'\<close>, whatever the
  counters are, so that check comes first; it fails with a 400 and changes nothing
  whenever \<^verbatim>\<open>uploaded_files < total_files\<close>; it returns the job id exactly when the
  status is \<^verbatim>\<open>'draft'\<close> and \<^verbatim>\<open>uploaded_files = total_files\<close>, and then the status
  of the job is \<^verbatim>\<open>'pending'\<close>.
\<close>

theorem submitJob_outcome:
  assumes "store_inv s" and "select_owned_job s J u = Some job"
  shows "(status job \<noteq> ''draft'' \<longrightarrow>
            submitJob u J s = (Inl (HTTPException 400 ''Already submitted.''), s)) \<and>
         (uploaded_files job < total_files job \<longrightarrow>
            is_validation_error (fst (submitJob u J s)) \<and> snd (submitJob u J s) = s) \<and>
         (fst (submitJob u J s) = Inr J \<longleftrightarrow>
            status job = ''draft'' \<and> uploaded_files job = total_files job) \<and>
         (fst (submitJob u J s) = Inr J \<longrightarrow>
            snd (submitJob u J s) = update_status J ''pending'' s \<and>
            select_owned_job (snd (submitJob u J s)) J u = Some (job\<lparr>status := ''pending''\<rparr>))"
proof -
  have le: "uploaded_files job \<le> total_files job"
    using uploaded_le_total [OF assms(1)] select_owned_job_Some(1) [OF assms(2)] .
  have id: "jobs_id job = J"
    using select_owned_job_Some(2) [OF assms(2)] .
  show ?thesis
    using assms(2) le id
    by (auto simp: submitJob_def is_validation_error_def select_owned_job_update_status)
qed

theorem submitJob_outcome_witness:
  "store_inv example_store_full \<and>
   select_owned_job example_store_full ''job-1'' ''alice@example.com'' = Some (example_job 3) \<and>
   fst (submitJob ''alice@example.com'' ''job-1'' example_store_full) = Inr ''job-1'' \<and>
   select_owned_job (snd (submitJob ''alice@example.com'' ''job-1'' example_store_full))
     ''job-1'' ''alice@example.com'' = Some ((example_job 3)\<lparr>status := ''pending''\<rparr>) \<and>
   store_inv example_store_1 \<and>
   select_owned_job example_store_1 ''job-1'' ''alice@example.com'' = Some (example_job 1) \<and>
   is_validation_error (fst (submitJob ''alice@example.com'' ''job-1'' example_store_1)) \<and>
   snd (submitJob ''alice@example.com'' ''job-1'' example_store_1) = example_store_1"
proof -
  have h1: "store_inv example_store_full"
    by (simp add: inv_eval example_store_full_rows)
  have h2: "select_owned_job example_store_full ''job-1'' ''alice@example.com'' = Some (example_job 3)"
    by (simp add: select_owned_job_def example_store_full_rows example_job_def)
  have k1: "store_inv example_store_1"
    by (simp add: inv_eval example_store_1_rows)
  have k2: "select_owned_job example_store_1 ''job-1'' ''alice@example.com'' = Some (example_job 1)"
    by (simp add: select_owned_job_def example_store_1_rows example_job_def)
  note full = submitJob_outcome [OF h1 h2]
  note part = submitJob_outcome [OF k1 k2]
  have s1: "fst (submitJob ''alice@example.com'' ''job-1'' example_store_full) = Inr ''job-1''"
    using full [THEN conjunct2, THEN conjunct2, THEN conjunct1] by (simp add: example_job_def)
  have s2: "select_owned_job (snd (submitJob ''alice@example.com'' ''job-1'' example_store_full))
     ''job-1'' ''alice@example.com'' = Some ((example_job 3)\<lparr>status := ''pending''\<rparr>)"
    using full [THEN conjunct2, THEN conjunct2, THEN conjunct2] s1 by blast
  have s3: "is_validation_error (fst (submitJob ''alice@example.com'' ''job-1'' example_store_1)) \<and>
     snd (submitJob ''alice@example.com'' ''job-1'' example_store_1) = example_store_1"
    using part [THEN conjunct2, THEN conjunct1] by (simp add: example_job_def)
  from h1 h2 s1 s2 k1 k2 s3 show ?thesis by blast
qed

section \<open>Status\<close>

text \<open>
  C5, as stated, fails on a job whose draft batch failed: the row of the job says
  \<^verbatim>\<open>total_files = 3\<close> and no file row was written, so get-status returns no pending
  index with \<^verbatim>\<open>totalFiles = 3\<close> and \<^verbatim>\<open>uploadedFiles = 0\<close>. The store is the one the
  failing draft of the example leaves from the empty store.
\<close>

theorem getJobStatus_failed_batch_counterexample:
  "example_store_orphan = snd (createDraft example_draft_batch_fails empty_store) \<and>
   select_owned_job example_store_orphan ''job-1'' ''alice@example.com'' = Some (example_job 0) \<and>
   getJobStatus ''alice@example.com'' ''job-1'' example_store_orphan =
     (Inr example_status_orphan, example_store_orphan) \<and>
   pendingIndices example_status_orphan = [] \<and>
   statusTotalFiles example_status_orphan = 3 \<and>
   statusUploadedFiles example_status_orphan = 0 \<and>
   int (length (pendingIndices example_status_orphan)) \<noteq>
     statusTotalFiles example_status_orphan - statusUploadedFiles example_status_orphan"
proof -
  have rows: "jobs example_store_orphan = [example_job 0]" "job_files example_store_orphan = []"
    by (simp_all add: example_store_orphan_def example_draft_batch_fails_def example_draft_def
        createDraft_def empty_store_def jobInsert_def bool_to_int_def example_job_def Let_def)
  show ?thesis
    by (simp add: getJobStatus_def select_owned_job_def select_pending_def rows
        example_status_orphan_def example_job_def)
      (simp add: example_store_orphan_def)
qed

text \<open>
  C5, amended. For a job the caller owns, in every store the handlers build from the
  empty one, failed writes included (\<open>rows_inv\<close>): get-status returns as
  \<^verbatim>\<open>pendingIndices\<close> the ascending list of the file indices of the job whose row is
  \<^verbatim>\<open>'pending'\<close>, and the length of that list is the number of the file rows of the job
  minus the number of them that are \<^verbatim>\<open>'uploaded'\<close>. The length is
  \<^verbatim>\<open>totalFiles - uploadedFiles\<close> in a store with \<open>store_inv\<close>, that is when no batch
  of a draft and no increment of an upload has failed.
\<close>

theorem getJobStatus_pendingIndices:
  assumes "rows_inv s" and "select_owned_job s J u = Some job"
  shows "\<exists>resp. getJobStatus u J s = (Inr resp, s) \<and>
           pendingIndices resp = map Some (sorted_list_of_set (pending_index_set s J)) \<and>
           int (length (pendingIndices resp)) =
             int (length (files_of s J)) - int (uploaded_count s J) \<and>
           statusTotalFiles resp = total_files job \<and>
           statusUploadedFiles resp = uploaded_files job \<and>
           (store_inv s \<longrightarrow>
              int (length (pendingIndices resp)) = statusTotalFiles resp - statusUploadedFiles resp)"
proof -
  note own = select_owned_job_Some [OF assms(2)]
  from assms(1) own(1) have "rows_ok (files_of s (jobs_id job))"
    by (simp add: rows_inv_def list_all_iff)
  then have shape: "map file_index (files_of s J) = map Some [0..<length (files_of s J)]"
    and stat: "list_all (\<lambda>jf. upload_status jf = ''pending'' \<or> upload_status jf = ''uploaded'') (files_of s J)"
    by (simp_all add: rows_ok_def own(2))
  have "length (select_pending s J) + uploaded_count s J = length (files_of s J)"
    unfolding select_pending_files_of uploaded_count_def by (rule pending_plus_uploaded [OF stat])
  then have len: "int (length (select_pending s J)) =
      int (length (files_of s J)) - int (uploaded_count s J)"
    by simp
  have full: "int (length (select_pending s J)) = total_files job - uploaded_files job"
    if "store_inv s"
    using store_inv_job [OF that own(1)] len by (simp add: job_shape_def own(2))
  let ?resp = "\<lparr>statusJobId = J, statusOfJob = status job, statusTotalFiles = total_files job,
      statusUploadedFiles = uploaded_files job,
      pendingIndices = map file_index (select_pending s J)\<rparr>"
  have "getJobStatus u J s = (Inr ?resp, s)"
    using assms(2) by (simp add: getJobStatus_def)
  moreover have "pendingIndices ?resp = map Some (sorted_list_of_set (pending_index_set s J))"
    using pending_indices_sorted [OF shape] by simp
  moreover have "int (length (pendingIndices ?resp)) =
      int (length (files_of s J)) - int (uploaded_count s J)"
    using len by simp
  moreover have "statusTotalFiles ?resp = total_files job" "statusUploadedFiles ?resp = uploaded_files job"
    by simp_all
  moreover have "store_inv s \<longrightarrow>
      int (length (pendingIndices ?resp)) = statusTotalFiles ?resp - statusUploadedFiles ?resp"
    using full by simp
  ultimately show ?thesis by blast
qed

theorem getJobStatus_pendingIndices_witness:
  "rows_inv example_store_1 \<and>
   store_inv example_store_1 \<and>
   select_owned_job example_store_1 ''job-1'' ''alice@example.com'' = Some (example_job 1) \<and>
   (\<exists>resp. getJobStatus ''alice@example.com'' ''job-1'' example_store_1 = (Inr resp, example_store_1) \<and>
      pendingIndices resp = [Some 0, Some 2] \<and>
      pendingIndices resp = map Some (sorted_list_of_set (pending_index_set example_store_1 ''job-1'')) \<and>
      int (length (pendingIndices resp)) = statusTotalFiles resp - statusUploadedFiles resp \<and>
      statusTotalFiles resp = 3 \<and> statusUploadedFiles resp = 1)"
proof -
  have k1: "store_inv example_store_1"
    by (simp add: inv_eval example_store_1_rows)
  have k0: "rows_inv example_store_1"
    using k1 by (rule store_inv_rows_inv)
  have k2: "select_owned_job example_store_1 ''job-1'' ''alice@example.com'' = Some (example_job 1)"
    by (simp add: select_owned_job_def example_store_1_rows example_job_def)
  from getJobStatus_pendingIndices [OF k0 k2] k1 obtain resp where
    r: "getJobStatus ''alice@example.com'' ''job-1'' example_store_1 = (Inr resp, example_store_1)"
    and p: "pendingIndices resp = map Some (sorted_list_of_set (pending_index_set example_store_1 ''job-1''))"
    and n: "int (length (pendingIndices resp)) = statusTotalFiles resp - statusUploadedFiles resp"
    and t: "statusTotalFiles resp = total_files (example_job 1)"
       "statusUploadedFiles resp = uploaded_files (example_job 1)"
    by blast
  have "fst (getJobStatus ''alice@example.com'' ''job-1'' example_store_1) =
      Inr \<lparr>statusJobId = ''job-1'', statusOfJob = ''draft'', statusTotalFiles = 3,
           statusUploadedFiles = 1, pendingIndices = [Some 0, Some 2]\<rparr>"
    by (simp add: getJobStatus_def select_owned_job_def select_pending_def example_store_1_rows
        example_job_def example_file_def)
  with r have q: "pendingIndices resp = [Some 0, Some 2]"
    by auto
  have t': "statusTotalFiles resp = 3" "statusUploadedFiles resp = 1"
    using t by (simp_all add: example_job_def)
  from k0 k1 k2 r q p n t' show ?thesis by blast
qed

section \<open>Uploads that are refused\<close>

text \<open>
  C6. When the status of the job is \<^verbatim>\<open>'pending'\<close> or \<^verbatim>\<open>'completed'\<close>, every
  upload-file call on it, whoever calls and whatever the index, the form and the put,
  fails with the 404 of the guarded lookup and returns the store as it was.
\<close>

theorem uploadFile_not_draft_not_found:
  assumes "primary_key_ok s" and "select_job s (callJobId c) = Some job"
    and "status job = ''pending'' \<or> status job = ''completed''"
  shows "uploadFile c s = (Inl (HTTPException 404 ''File not found or job is not in draft state.''), s)"
proof -
  have "\<forall>j\<in>set (jobs s). jobs_id j = callJobId c \<longrightarrow> \<not> (user_email j = callUser c \<and> status j = ''draft'')"
    using select_job_unique [OF assms(1,2)] assms(3) by auto
  then have "select_file_row s (callJobId c) (callFileIndex c) (callUser c) = None"
    by (rule select_file_row_None)
  then show ?thesis by (simp add: uploadFile_def)
qed

theorem uploadFile_not_draft_not_found_witness:
  "primary_key_ok example_store_submitted \<and>
   select_job example_store_submitted ''job-1'' = Some ((example_job 3)\<lparr>status := ''pending''\<rparr>) \<and>
   uploadFile (example_upload ''alice@example.com'' 0) example_store_submitted =
     (Inl (HTTPException 404 ''File not found or job is not in draft state.''), example_store_submitted)"
proof -
  let ?c = "example_upload ''alice@example.com'' 0"
  have h1: "primary_key_ok example_store_submitted"
    by (simp add: primary_key_ok_def example_store_submitted_rows)
  have h2: "select_job example_store_submitted (callJobId ?c) = Some ((example_job 3)\<lparr>status := ''pending''\<rparr>)"
    by (simp add: select_job_def example_store_submitted_rows example_job_def example_upload_def)
  have h3: "status ((example_job 3)\<lparr>status := ''pending''\<rparr>) = ''pending'' \<or>
            status ((example_job 3)\<lparr>status := ''pending''\<rparr>) = ''completed''"
    by simp
  from uploadFile_not_draft_not_found [OF h1 h2 h3] h1 h2 show ?thesis
    by (simp add: example_upload_def)
qed

text \<open>
  C7. For a job \<open>J\<close> owned by another user, upload-file, get-status and submit each
  fail with their 404 and leave the store as it was, and each gives exactly the
  response it gives for a job id \<open>J'\<close> that no row has.
\<close>

theorem other_owner_not_found:
  assumes "primary_key_ok s" and "select_job s J = Some job" and "user_email job \<noteq> u"
    and "select_job s J' = None"
  shows "uploadFile (c\<lparr>callUser := u, callJobId := J\<rparr>) s =
           (Inl (HTTPException 404 ''File not found or job is not in draft state.''), s) \<and>
         uploadFile (c\<lparr>callUser := u, callJobId := J'\<rparr>) s = uploadFile (c\<lparr>callUser := u, callJobId := J\<rparr>) s \<and>
         getJobStatus u J s = (Inl (HTTPException 404 ''Job not found.''), s) \<and>
         getJobStatus u J' s = getJobStatus u J s \<and>
         submitJob u J s = (Inl (HTTPException 404 ''Job not found.''), s) \<and>
         submitJob u J' s = submitJob u J s"
proof -
  have other: "\<forall>j\<in>set (jobs s). jobs_id j = J \<longrightarrow> user_email j \<noteq> u"
    using select_job_unique [OF assms(1,2)] assms(3) by auto
  have absent: "\<forall>j\<in>set (jobs s). jobs_id j = J' \<longrightarrow> user_email j \<noteq> u"
    using select_job_None [OF assms(4)] by auto
  have "select_file_row s J i u = None" "select_file_row s J' i u = None" for i
    using other absent by (auto intro!: select_file_row_None)
  moreover have "select_owned_job s J u = None" "select_owned_job s J' u = None"
    using other absent by (auto intro!: select_owned_job_None)
  ultimately show ?thesis
    by (simp add: uploadFile_def getJobStatus_def submitJob_def)
qed

theorem other_owner_not_found_witness:
  "primary_key_ok example_store \<and>
   select_job example_store ''job-1'' = Some (example_job 0) \<and>
   user_email (example_job 0) \<noteq> ''mallory@example.com'' \<and>
   select_job example_store ''job-2'' = None \<and>
   uploadFile (example_upload ''mallory@example.com'' 0) example_store =
     (Inl (HTTPException 404 ''File not found or job is not in draft state.''), example_store) \<and>
   uploadFile ((example_upload ''mallory@example.com'' 0)\<lparr>callJobId := ''job-2''\<rparr>) example_store =
     uploadFile (example_upload ''mallory@example.com'' 0) example_store \<and>
   getJobStatus ''mallory@example.com'' ''job-2'' example_store =
     getJobStatus ''mallory@example.com'' ''job-1'' example_store \<and>
   submitJob ''mallory@example.com'' ''job-2'' example_store =
     submitJob ''mallory@example.com'' ''job-1'' example_store \<and>
   submitJob ''mallory@example.com'' ''job-1'' example_store =
     (Inl (HTTPException 404 ''Job not found.''), example_store)"
proof -
  have h1: "primary_key_ok example_store"
    using example_store_inv by (simp add: store_inv_def)
  have h2: "select_job example_store ''job-1'' = Some (example_job 0)"
    by (simp add: select_job_def example_store_rows example_job_def)
  have h3: "user_email (example_job 0) \<noteq> ''mallory@example.com''"
    by (simp add: example_job_def)
  have h4: "select_job example_store ''job-2'' = None"
    by (simp add: select_job_def example_store_rows example_job_def)
  from other_owner_not_found [OF h1 h2 h3 h4, of "example_upload ''mallory@example.com'' 0"] h1 h2 h3 h4
  show ?thesis
    by (simp add: example_upload_def)
qed

text \<open>
  C8. When the put fails, upload-file leaves the whole store as it was. Whenever a call
  changes \<^verbatim>\<open>job_files\<close> or \<^verbatim>\<open>jobs\<close>, the put of that call succeeded and the bucket
  holds the bytes of the form under the key of the row the lookup found.
\<close>

theorem uploadFile_writes_only_after_put:
  "(\<not> putSucceeds c \<longrightarrow> snd (uploadFile c s) = s) \<and>
   (job_files (snd (uploadFile c s)) \<noteq> job_files s \<or> jobs (snd (uploadFile c s)) \<noteq> jobs s \<longrightarrow>
      putSucceeds c \<and>
      (\<exists>fileRow payload.
          select_file_row s (callJobId c) (callFileIndex c) (callUser c) = Some fileRow \<and>
          map_of (callForm c) ''file'' = Some (FormFile payload) \<and>
          bucket (snd (uploadFile c s)) (storage_key fileRow) = Some payload))"
  by (auto simp: uploadFile_def Let_def increment_uploaded_def update_file_uploaded_def
      split: option.splits form_value.splits if_splits)

theorem uploadFile_writes_only_after_put_witness:
  "\<not> putSucceeds ((example_upload ''alice@example.com'' 1)\<lparr>putSucceeds := False\<rparr>) \<and>
   uploadFile ((example_upload ''alice@example.com'' 1)\<lparr>putSucceeds := False\<rparr>) example_store =
     (Inl R2Error, example_store) \<and>
   job_files (snd (uploadFile (example_upload ''alice@example.com'' 1) example_store)) \<noteq>
     job_files example_store \<and>
   putSucceeds (example_upload ''alice@example.com'' 1) \<and>
   bucket (snd (uploadFile (example_upload ''alice@example.com'' 1) example_store))
     ''jobs/job-1/u1-b.png'' = Some ''bytes''"
proof -
  let ?c = "example_upload ''alice@example.com'' 1"
  let ?c' = "?c\<lparr>putSucceeds := False\<rparr>"
  have a: "\<not> putSucceeds ?c'" by simp
  have b: "fst (uploadFile ?c' example_store) = Inl R2Error"
    by (simp add: uploadFile_def select_file_row_def example_upload_def example_store_rows
        example_job_def example_file_def)
  have c: "job_files (snd (uploadFile ?c example_store)) \<noteq> job_files example_store"
    using example_store_1_rows(2) by (simp add: example_store_1_def example_store_rows example_file_def)
  have d: "select_file_row example_store (callJobId ?c) (callFileIndex ?c) (callUser ?c) =
      Some (example_file 1 ''docs'' ''b.png'' ''jobs/job-1/u1-b.png'' 20 ''pending'')"
    by (simp add: select_file_row_def example_upload_def example_store_rows example_job_def
        example_file_def)
  have e: "map_of (callForm ?c) ''file'' = Some (FormFile ''bytes'')"
    by (simp add: example_upload_def)
  from uploadFile_writes_only_after_put [of ?c' example_store, THEN conjunct1, rule_format, OF a]
  have f: "snd (uploadFile ?c' example_store) = example_store" .
  from uploadFile_writes_only_after_put [of ?c example_store, THEN conjunct2, rule_format, OF disjI1, OF c]
  obtain fileRow payload where g: "putSucceeds ?c"
    "select_file_row example_store (callJobId ?c) (callFileIndex ?c) (callUser ?c) = Some fileRow"
    "map_of (callForm ?c) ''file'' = Some (FormFile payload)"
    "bucket (snd (uploadFile ?c example_store)) (storage_key fileRow) = Some payload"
    by blast
  from g(2) d have "storage_key fileRow = ''jobs/job-1/u1-b.png''"
    by (simp add: example_file_def)
  moreover from g(3) e have "payload = ''bytes''"
    by simp
  ultimately have h: "bucket (snd (uploadFile ?c example_store)) ''jobs/job-1/u1-b.png'' = Some ''bytes''"
    using g(4) by simp
  have "uploadFile ?c' example_store = (Inl R2Error, example_store)"
    using b f by (simp add: prod_eq_iff)
  with a c g(1) h show ?thesis by (intro conjI)
qed

text \<open>
  C9. For a registered index of a draft job the caller owns, a form whose \<^verbatim>\<open>file\<close>
  field is absent or a plain string makes upload-file fail with the 400
  \<^verbatim>\<open>Missing "file" field.\<close> and return the store as it was.
\<close>

theorem uploadFile_missing_file_field:
  assumes "select_file_row s (callJobId c) (callFileIndex c) (callUser c) = Some fileRow"
    and "map_of (callForm c) ''file'' = None \<or> (\<exists>v. map_of (callForm c) ''file'' = Some (FormString v))"
  shows "uploadFile c s = (Inl (HTTPException 400 ''Missing \"file\" field.''), s)"
  using assms by (auto simp: uploadFile_def)

theorem uploadFile_missing_file_field_witness:
  "select_file_row example_store ''job-1'' 1 ''alice@example.com'' =
     Some (example_file 1 ''docs'' ''b.png'' ''jobs/job-1/u1-b.png'' 20 ''pending'') \<and>
   uploadFile ((example_upload ''alice@example.com'' 1)\<lparr>callForm := []\<rparr>) example_store =
     (Inl (HTTPException 400 ''Missing \"file\" field.''), example_store) \<and>
   uploadFile ((example_upload ''alice@example.com'' 1)\<lparr>callForm := [(''file'', FormString ''a.png'')]\<rparr>)
     example_store = (Inl (HTTPException 400 ''Missing \"file\" field.''), example_store)"
proof -
  let ?row = "example_file 1 ''docs'' ''b.png'' ''jobs/job-1/u1-b.png'' 20 ''pending''"
  let ?c1 = "(example_upload ''alice@example.com'' 1)\<lparr>callForm := []\<rparr>"
  let ?c2 = "(example_upload ''alice@example.com'' 1)\<lparr>callForm := [(''file'', FormString ''a.png'')]\<rparr>"
  have d: "select_file_row example_store ''job-1'' 1 ''alice@example.com'' = Some ?row"
    by (simp add: select_file_row_def example_store_rows example_job_def example_file_def)
  then have d1: "select_file_row example_store (callJobId ?c1) (callFileIndex ?c1) (callUser ?c1) = Some ?row"
    and d2: "select_file_row example_store (callJobId ?c2) (callFileIndex ?c2) (callUser ?c2) = Some ?row"
    by (simp_all add: example_upload_def)
  have f1: "map_of (callForm ?c1) ''file'' = None \<or>
      (\<exists>v. map_of (callForm ?c1) ''file'' = Some (FormString v))"
    by simp
  have f2: "map_of (callForm ?c2) ''file'' = None \<or>
      (\<exists>v. map_of (callForm ?c2) ''file'' = Some (FormString v))"
    by simp
  from uploadFile_missing_file_field [OF d1 f1] uploadFile_missing_file_field [OF d2 f2] d show ?thesis by simp
qed

text \<open>
  C10. upload-file never throws a 500 \<open>HTTPException\<close>: whenever the guarded lookup
  finds a row, the store the call leaves, which is the store at the re-read, has a
  \<^verbatim>\<open>jobs\<close> row with the id.
\<close>

theorem uploadFile_reread_finds_job:
  "fst (uploadFile c s) \<noteq> Inl (HTTPException 500 msg) \<and>
   (select_file_row s (callJobId c) (callFileIndex c) (callUser c) \<noteq> None \<longrightarrow>
      select_job (snd (uploadFile c s)) (callJobId c) \<noteq> None)"
proof (cases "select_file_row s (callJobId c) (callFileIndex c) (callUser c)")
  case None
  then show ?thesis by (simp add: uploadFile_def)
next
  case (Some fileRow)
  then obtain job where job: "select_job s (callJobId c) = Some job"
    using select_file_row_job by blast
  then have "select_job (s\<lparr>bucket := b\<rparr>) (callJobId c) = Some job" for b
    by (simp add: select_job_def)
  with Some job show ?thesis
    by (auto simp: uploadFile_def Let_def select_job_increment split: option.splits form_value.splits)
qed

theorem uploadFile_reread_finds_job_witness:
  "select_file_row example_store ''job-1'' 1 ''alice@example.com'' \<noteq> None \<and>
   select_job (snd (uploadFile (example_upload ''alice@example.com'' 1) example_store)) ''job-1'' \<noteq> None \<and>
   fst (uploadFile (example_upload ''alice@example.com'' 1) example_store) =
     Inr \<lparr>fileIndex = 1, uploadedFiles = 1, totalFiles = 3\<rparr>"
proof -
  let ?c = "example_upload ''alice@example.com'' 1"
  have d: "select_file_row example_store (callJobId ?c) (callFileIndex ?c) (callUser ?c) \<noteq> None"
    by (simp add: select_file_row_def example_upload_def example_store_rows example_job_def
        example_file_def)
  have r: "fst (uploadFile ?c example_store) = Inr \<lparr>fileIndex = 1, uploadedFiles = 1, totalFiles = 3\<rparr>"
    by (simp add: example_eval)
  from uploadFile_reread_finds_job [of ?c example_store] d
  have "select_job (snd (uploadFile ?c example_store)) (callJobId ?c) \<noteq> None"
    by blast
  with d r show ?thesis
    by (simp add: example_upload_def)
qed

end
